theory Spec2Isabelle
  imports Complex_Main "HOL-Library.Multiset"
begin

section \<open>Values\<close>

text \<open>
  The backend (\<^verbatim>\<open>backend/src/app.js\<close>) is an Express application over two Mongoose
  collections. Every route handler is modelled as a function from the request and the
  store to a response and the new store. What the handlers obtain from their libraries
  and from the process (e-mail syntax, bcrypt, the JWT signature, numeric coercion of
  strings, ISO date parsing) is a field of the record \<open>env\<close>; the clock readings, the
  fresh ObjectId and the order in which the store scans its documents during one
  request are the record \<open>ctx\<close>.

  A request is modelled from the point where Express enters the route: the body has
  been parsed by \<^verbatim>\<open>express.json\<close>, and the middleware mounted before the routes
  (helmet, the rate limiter, CORS, the request logger) has passed it on. The log lines
  the handlers write are not part of the response and are not modelled.

  Strings are lists of characters, one \<open>char\<close> per code unit of the JavaScript string.
  A JavaScript number is NaN, an infinity or a finite binary64 value, given by the
  rational number it denotes. The two zeros are one value: the handlers divide by no
  zero but \<open>limit\<close>, and JSON writes both infinities as \<open>null\<close>.
\<close>

type_synonym oid = nat
type_synonym time = int

datatype jsnum = NaN | PosInf | NegInf | Fin rat

datatype json =
    JNull
  | JBool bool
  | JNum jsnum
  | JStr string
  | JArr "json list"
  | JObj "(string \<times> json) list"

record claims =
  c_userId :: oid
  c_username :: string
  c_role :: string

record env =
  joi_email :: "string \<Rightarrow> bool"
  joi_iso_date :: "string \<Rightarrow> time option"
  bcrypt_hash :: "string \<Rightarrow> string"
  bcrypt_compare :: "string \<Rightarrow> string \<Rightarrow> bool"
  jwt_sign :: "claims \<Rightarrow> time \<Rightarrow> string"
  jwt_verify :: "string \<Rightarrow> time \<Rightarrow> claims option"
  to_number :: "string \<Rightarrow> jsnum"

record ctx =
  now :: time
  now_save :: time
  new_id :: oid
  scan_rank :: "oid \<Rightarrow> nat"

section \<open>Documents and the store\<close>

record user =
  user_id :: oid
  username :: string
  email :: string
  password :: string
  role :: string
  isActive :: bool
  lastLogin :: "time option"
  user_createdAt :: time

record task =
  task_id :: oid
  title :: string
  description :: "string option"
  status :: string
  priority :: string
  dueDate :: "time option"
  tags :: "string list"
  userId :: oid
  createdAt :: time
  updatedAt :: time

record store =
  users :: "user list"
  tasks :: "task list"

section \<open>Requests and responses\<close>

record request =
  headers_authorization :: "string option"
  body :: json
  params_id :: "oid option"
  query_page :: "string option"
  query_limit :: "string option"
  query_status :: "string option"
  query_priority :: "string option"

text \<open>
  \<open>params_id\<close> is the path segment \<^verbatim>\<open>:id\<close> as Mongoose casts it: \<open>None\<close> when the
  segment is not an ObjectId (the query then throws a CastError).
\<close>

datatype verr =
    ObjectBase
  | AnyRequired string
  | StringBase string
  | StringEmpty string
  | StringAlphanum string
  | StringMin string nat
  | StringMax string nat
  | StringEmail string
  | AnyOnly string
  | DateBase string
  | DateFormat string
  | ArrayBase string
  | AtIndex string nat verr
  | ObjectUnknown string

record public_user =
  pu_id :: oid
  pu_username :: string
  pu_email :: string
  pu_role :: string
  pu_lastLogin :: "time option"

record profile_user =
  pr_id :: oid
  pr_username :: string
  pr_email :: string
  pr_role :: string
  pr_isActive :: bool
  pr_lastLogin :: "time option"
  pr_createdAt :: time

datatype payload =
    ErrorMsg string
  | ValidationMsg verr
  | AuthBody string string public_user
  | TaskDoc task
  | TaskPage "task list" json json nat
  | MessageBody string
  | ProfileDoc profile_user

record response =
  res_status :: nat
  res_json :: payload

definition respond :: "nat \<Rightarrow> payload \<Rightarrow> response" where
  "respond c p = \<lparr>res_status = c, res_json = p\<rparr>"

definition internal_error :: response where
  "internal_error = respond 500 (ErrorMsg ''Internal server error'')"

section \<open>Strings\<close>

definition is_alnum :: "char \<Rightarrow> bool" where
  "is_alnum c = (let n = (of_char c :: nat) in
     (48 \<le> n \<and> n \<le> 57) \<or> (65 \<le> n \<and> n \<le> 90) \<or> (97 \<le> n \<and> n \<le> 122))"

definition is_space :: "char \<Rightarrow> bool" where
  "is_space c = (let n = (of_char c :: nat) in (9 \<le> n \<and> n \<le> 13) \<or> n = 32 \<or> n = 160)"

definition to_lower :: "char \<Rightarrow> char" where
  "to_lower c = (let n = (of_char c :: nat) in
     if (65 \<le> n \<and> n \<le> 90) \<or> (192 \<le> n \<and> n \<le> 222 \<and> n \<noteq> 215)
     then char_of (n + 32) else c)"

definition trim :: "string \<Rightarrow> string" where
  "trim s = rev (dropWhile is_space (rev (dropWhile is_space s)))"

definition toLowerCase :: "string \<Rightarrow> string" where
  "toLowerCase s = map to_lower s"

section \<open>Joi schemas\<close>

text \<open>
  \<^verbatim>\<open>schema.validate(req.body)\<close> with Joi's defaults: the keys are checked in the order
  of the schema, the first error ends the validation, and a key the schema does not
  name is an error reported after the named keys. A string rule is a function giving
  the error of a string that breaks it.
\<close>

type_synonym rule = "string \<Rightarrow> verr option"

definition rule_alphanum :: "string \<Rightarrow> rule" where
  "rule_alphanum k s = (if list_all is_alnum s then None else Some (StringAlphanum k))"

definition rule_min :: "string \<Rightarrow> nat \<Rightarrow> rule" where
  "rule_min k n s = (if n \<le> length s then None else Some (StringMin k n))"

definition rule_max :: "string \<Rightarrow> nat \<Rightarrow> rule" where
  "rule_max k n s = (if length s \<le> n then None else Some (StringMax k n))"

definition rule_email :: "env \<Rightarrow> string \<Rightarrow> rule" where
  "rule_email e k s = (if joi_email e s then None else Some (StringEmail k))"

fun run_rules :: "rule list \<Rightarrow> string \<Rightarrow> verr option" where
  "run_rules [] s = None"
| "run_rules (r # rs) s = (case r s of Some e \<Rightarrow> Some e | None \<Rightarrow> run_rules rs s)"

definition joi_string :: "string \<Rightarrow> bool \<Rightarrow> rule list \<Rightarrow> json \<Rightarrow> verr + string" where
  "joi_string k allow_empty rules v =
     (case v of
        JStr s \<Rightarrow>
          if s = [] then (if allow_empty then Inr s else Inl (StringEmpty k))
          else (case run_rules rules s of Some e \<Rightarrow> Inl e | None \<Rightarrow> Inr s)
      | _ \<Rightarrow> Inl (StringBase k))"

definition joi_required :: "(string \<times> json) list \<Rightarrow> string \<Rightarrow> (json \<Rightarrow> verr + 'a) \<Rightarrow> verr + 'a" where
  "joi_required kv k f = (case map_of kv k of None \<Rightarrow> Inl (AnyRequired k) | Some v \<Rightarrow> f v)"

definition joi_optional :: "(string \<times> json) list \<Rightarrow> string \<Rightarrow> (json \<Rightarrow> verr + 'a) \<Rightarrow> verr + 'a option" where
  "joi_optional kv k f =
     (case map_of kv k of
        None \<Rightarrow> Inr None
      | Some v \<Rightarrow> (case f v of Inl e \<Rightarrow> Inl e | Inr x \<Rightarrow> Inr (Some x)))"

definition joi_unknown :: "(string \<times> json) list \<Rightarrow> string list \<Rightarrow> verr option" where
  "joi_unknown kv known =
     (case List.find (\<lambda>k. k \<notin> set known) (map fst kv) of
        None \<Rightarrow> None
      | Some k \<Rightarrow> Some (ObjectUnknown k))"

record register_value =
  r_username :: string
  r_email :: string
  r_password :: string

definition registerSchema_username :: "json \<Rightarrow> verr + string" where
  "registerSchema_username =
     joi_string ''username'' False
       [rule_alphanum ''username'', rule_min ''username'' 3, rule_max ''username'' 30]"

definition registerSchema_email :: "env \<Rightarrow> json \<Rightarrow> verr + string" where
  "registerSchema_email e = joi_string ''email'' False [rule_email e ''email'']"

definition registerSchema_password :: "json \<Rightarrow> verr + string" where
  "registerSchema_password =
     joi_string ''password'' False [rule_min ''password'' 6, rule_max ''password'' 128]"

definition registerSchema :: "env \<Rightarrow> json \<Rightarrow> verr + register_value" where
  "registerSchema e b =
     (case b of
        JObj kv \<Rightarrow>
          (case joi_required kv ''username'' registerSchema_username of
             Inl err \<Rightarrow> Inl err
           | Inr u \<Rightarrow>
          (case joi_required kv ''email'' (registerSchema_email e) of
             Inl err \<Rightarrow> Inl err
           | Inr m \<Rightarrow>
          (case joi_required kv ''password'' registerSchema_password of
             Inl err \<Rightarrow> Inl err
           | Inr p \<Rightarrow>
          (case joi_unknown kv [''username'', ''email'', ''password''] of
             Some err \<Rightarrow> Inl err
           | None \<Rightarrow> Inr \<lparr>r_username = u, r_email = m, r_password = p\<rparr>))))
      | _ \<Rightarrow> Inl ObjectBase)"

record login_value =
  l_email :: string
  l_password :: string

definition loginSchema :: "env \<Rightarrow> json \<Rightarrow> verr + login_value" where
  "loginSchema e b =
     (case b of
        JObj kv \<Rightarrow>
          (case joi_required kv ''email'' (joi_string ''email'' False [rule_email e ''email'']) of
             Inl err \<Rightarrow> Inl err
           | Inr m \<Rightarrow>
          (case joi_required kv ''password'' (joi_string ''password'' False []) of
             Inl err \<Rightarrow> Inl err
           | Inr p \<Rightarrow>
          (case joi_unknown kv [''email'', ''password''] of
             Some err \<Rightarrow> Inl err
           | None \<Rightarrow> Inr \<lparr>l_email = m, l_password = p\<rparr>)))
      | _ \<Rightarrow> Inl ObjectBase)"

section \<open>The users collection\<close>

text \<open>
  \<^verbatim>\<open>userSchema\<close>: the setters (\<^verbatim>\<open>trim\<close>, \<^verbatim>\<open>lowercase\<close>) run on the values written
  and on the values of a query filter; the validators run before a document is saved.
  The pattern of \<open>username\<close> is \<^verbatim>\<open>/^[a-zA-Z0-9_]+$/\<close>, the one of \<open>email\<close> is
  \<^verbatim>\<open>/^[^\s@]+@[^\s@]+\.[^\s@]+$/\<close>.
\<close>

definition username_setter :: "string \<Rightarrow> string" where
  "username_setter s = trim s"

definition email_setter :: "string \<Rightarrow> string" where
  "email_setter s = toLowerCase (trim s)"

definition username_match :: "string \<Rightarrow> bool" where
  "username_match s = (s \<noteq> [] \<and> list_all (\<lambda>c. is_alnum c \<or> c = CHR ''_'') s)"

definition plain :: "string \<Rightarrow> bool" where
  "plain s = (s \<noteq> [] \<and> list_all (\<lambda>c. \<not> is_space c \<and> c \<noteq> CHR ''@'') s)"

definition email_match :: "string \<Rightarrow> bool" where
  "email_match s =
     (let l = takeWhile (\<lambda>c. c \<noteq> CHR ''@'') s; d = drop (Suc (length l)) s
      in length l < length s \<and> plain l \<and> plain d \<and>
         list_ex (\<lambda>i. d ! i = CHR ''.'') [1 ..< length d - 1])"

datatype store_error = ValidationError | CastError | DuplicateKey | BadValue

definition user_validate :: "user \<Rightarrow> bool" where
  "user_validate u =
     (3 \<le> length (username u) \<and> length (username u) \<le> 30 \<and> username_match (username u) \<and>
      email_match (email u) \<and> 6 \<le> length (password u) \<and> role u \<in> {''user'', ''admin''})"

definition new_User :: "ctx \<Rightarrow> register_value \<Rightarrow> user" where
  "new_User c v =
     \<lparr>user_id = new_id c,
      username = username_setter (r_username v),
      email = email_setter (r_email v),
      password = r_password v,
      role = ''user'',
      isActive = True,
      lastLogin = None,
      user_createdAt = now c\<rparr>"

definition user_insert :: "env \<Rightarrow> user \<Rightarrow> store \<Rightarrow> store_error + user \<times> store" where
  "user_insert e u s =
     (if \<not> user_validate u then Inl ValidationError
      else let u' = u\<lparr>password := bcrypt_hash e (password u)\<rparr> in
        if list_ex (\<lambda>x. user_id x = user_id u' \<or> username x = username u' \<or> email x = email u')
             (users s)
        then Inl DuplicateKey
        else Inr (u', s\<lparr>users := users s @ [u']\<rparr>))"

section \<open>Registration\<close>

definition token_for :: "env \<Rightarrow> ctx \<Rightarrow> user \<Rightarrow> string" where
  "token_for e c u =
     jwt_sign e \<lparr>c_userId = user_id u, c_username = username u, c_role = role u\<rparr> (now_save c)"

definition post_auth_register :: "env \<Rightarrow> ctx \<Rightarrow> request \<Rightarrow> store \<Rightarrow> response \<times> store" where
  "post_auth_register e c req s =
     (case registerSchema e (body req) of
        Inl err \<Rightarrow> (respond 400 (ValidationMsg err), s)
      | Inr v \<Rightarrow>
          (case List.find (\<lambda>u. email u = email_setter (r_email v) \<or>
                               username u = username_setter (r_username v)) (users s) of
             Some existingUser \<Rightarrow> (respond 400 (ErrorMsg ''User already exists''), s)
           | None \<Rightarrow>
               (case user_insert e (new_User c v) s of
                  Inl err \<Rightarrow> (internal_error, s)
                | Inr (u, s') \<Rightarrow>
                    (respond 201
                       (AuthBody ''User created successfully'' (token_for e c u)
                          \<lparr>pu_id = user_id u, pu_username = username u, pu_email = email u,
                           pu_role = role u, pu_lastLogin = None\<rparr>),
                     s'))))"

section \<open>Login\<close>

fun update_first :: "('a \<Rightarrow> bool) \<Rightarrow> ('a \<Rightarrow> 'a) \<Rightarrow> 'a list \<Rightarrow> 'a list" where
  "update_first P f [] = []"
| "update_first P f (x # xs) = (if P x then f x # xs else x # update_first P f xs)"

fun delete_first :: "('a \<Rightarrow> bool) \<Rightarrow> 'a list \<Rightarrow> 'a list" where
  "delete_first P [] = []"
| "delete_first P (x # xs) = (if P x then xs else x # delete_first P xs)"

definition user_save :: "user \<Rightarrow> store \<Rightarrow> store" where
  "user_save u s =
     s\<lparr>users := update_first (\<lambda>x. user_id x = user_id u) (\<lambda>x. x\<lparr>lastLogin := lastLogin u\<rparr>) (users s)\<rparr>"

definition invalid_credentials :: response where
  "invalid_credentials = respond 401 (ErrorMsg ''Invalid credentials'')"

definition post_auth_login :: "env \<Rightarrow> ctx \<Rightarrow> request \<Rightarrow> store \<Rightarrow> response \<times> store" where
  "post_auth_login e c req s =
     (case loginSchema e (body req) of
        Inl err \<Rightarrow> (respond 400 (ValidationMsg err), s)
      | Inr v \<Rightarrow>
          (case List.find (\<lambda>u. email u = email_setter (l_email v) \<and> isActive u) (users s) of
             None \<Rightarrow> (invalid_credentials, s)
           | Some u \<Rightarrow>
               if \<not> bcrypt_compare e (l_password v) (password u) then (invalid_credentials, s)
               else
                 let u' = u\<lparr>lastLogin := Some (now c)\<rparr> in
                 (respond 200
                    (AuthBody ''Login successful'' (token_for e c u')
                       \<lparr>pu_id = user_id u', pu_username = username u', pu_email = email u',
                        pu_role = role u', pu_lastLogin = lastLogin u'\<rparr>),
                  user_save u' s)))"

section \<open>The JWT middleware\<close>

text \<open>
  \<^verbatim>\<open>authHeader.split(' ')\<close> cuts the header at every space; the token is the second
  piece. \<open>None\<close> stands for \<^verbatim>\<open>undefined\<close>.
\<close>

fun split_space :: "string \<Rightarrow> string list" where
  "split_space [] = [[]]"
| "split_space (c # cs) =
     (if c = CHR '' '' then [] # split_space cs
      else (case split_space cs of
              w # ws \<Rightarrow> (c # w) # ws
            | [] \<Rightarrow> [[c]]))"

definition header_token :: "string option \<Rightarrow> string option" where
  "header_token h =
     (case h of
        None \<Rightarrow> None
      | Some a \<Rightarrow>
          if a = [] then Some a
          else (case split_space a of
                  _ # t # _ \<Rightarrow> Some t
                | _ \<Rightarrow> None))"

definition token_required :: response where
  "token_required = respond 401 (ErrorMsg ''Access token required'')"

definition invalid_token :: response where
  "invalid_token = respond 403 (ErrorMsg ''Invalid token'')"

definition authenticateToken :: "env \<Rightarrow> ctx \<Rightarrow> request \<Rightarrow> response + claims" where
  "authenticateToken e c req =
     (case header_token (headers_authorization req) of
        None \<Rightarrow> Inl token_required
      | Some t \<Rightarrow>
          if t = [] then Inl token_required
          else (case jwt_verify e t (now c) of
                  None \<Rightarrow> Inl invalid_token
                | Some u \<Rightarrow> Inr u))"

text \<open>
  A route registered as \<^verbatim>\<open>app.METHOD(path, authenticateToken, handler)\<close>: the handler
  runs only when the middleware calls \<^verbatim>\<open>next()\<close>.
\<close>

definition protected ::
  "env \<Rightarrow> ctx \<Rightarrow> (claims \<Rightarrow> request \<Rightarrow> store \<Rightarrow> response \<times> store) \<Rightarrow>
   request \<Rightarrow> store \<Rightarrow> response \<times> store" where
  "protected e c handler req s =
     (case authenticateToken e c req of
        Inl r \<Rightarrow> (r, s)
      | Inr u \<Rightarrow> handler u req s)"

section \<open>The task-write schema\<close>

record task_value =
  v_title :: string
  v_description :: "string option"
  v_status :: "string option"
  v_priority :: "string option"
  v_dueDate :: "time option"
  v_tags :: "string list option"

definition joi_valid :: "string \<Rightarrow> string list \<Rightarrow> json \<Rightarrow> verr + string" where
  "joi_valid k allowed v =
     (case v of
        JStr s \<Rightarrow> if s \<in> set allowed then Inr s else Inl (AnyOnly k)
      | _ \<Rightarrow> Inl (AnyOnly k))"

definition joi_date_iso :: "env \<Rightarrow> string \<Rightarrow> json \<Rightarrow> verr + time" where
  "joi_date_iso e k v =
     (case v of
        JStr s \<Rightarrow> (case joi_iso_date e s of Some t \<Rightarrow> Inr t | None \<Rightarrow> Inl (DateFormat k))
      | _ \<Rightarrow> Inl (DateBase k))"

fun joi_items :: "string \<Rightarrow> nat \<Rightarrow> (json \<Rightarrow> verr + string) \<Rightarrow> json list \<Rightarrow> verr + string list" where
  "joi_items k i f [] = Inr []"
| "joi_items k i f (x # xs) =
     (case f x of
        Inl err \<Rightarrow> Inl (AtIndex k i err)
      | Inr y \<Rightarrow> (case joi_items k (Suc i) f xs of Inl err \<Rightarrow> Inl err | Inr ys \<Rightarrow> Inr (y # ys)))"

definition joi_array :: "string \<Rightarrow> (json \<Rightarrow> verr + string) \<Rightarrow> json \<Rightarrow> verr + string list" where
  "joi_array k f v = (case v of JArr xs \<Rightarrow> joi_items k 0 f xs | _ \<Rightarrow> Inl (ArrayBase k))"

definition status_values :: "string list" where
  "status_values = [''pending'', ''in-progress'', ''completed'']"

definition priority_values :: "string list" where
  "priority_values = [''low'', ''medium'', ''high'']"

definition taskSchema_validation :: "env \<Rightarrow> json \<Rightarrow> verr + task_value" where
  "taskSchema_validation e b =
     (case b of
        JObj kv \<Rightarrow>
          (case joi_required kv ''title'' (joi_string ''title'' False [rule_max ''title'' 100]) of
             Inl err \<Rightarrow> Inl err
           | Inr t \<Rightarrow>
          (case joi_optional kv ''description''
                  (joi_string ''description'' True [rule_max ''description'' 500]) of
             Inl err \<Rightarrow> Inl err
           | Inr d \<Rightarrow>
          (case joi_optional kv ''status'' (joi_valid ''status'' status_values) of
             Inl err \<Rightarrow> Inl err
           | Inr st \<Rightarrow>
          (case joi_optional kv ''priority'' (joi_valid ''priority'' priority_values) of
             Inl err \<Rightarrow> Inl err
           | Inr pr \<Rightarrow>
          (case joi_optional kv ''dueDate'' (joi_date_iso e ''dueDate'') of
             Inl err \<Rightarrow> Inl err
           | Inr du \<Rightarrow>
          (case joi_optional kv ''tags''
                  (joi_array ''tags'' (joi_string ''tags'' False [rule_max ''tags'' 20])) of
             Inl err \<Rightarrow> Inl err
           | Inr tg \<Rightarrow>
          (case joi_unknown kv
                  [''title'', ''description'', ''status'', ''priority'', ''dueDate'', ''tags''] of
             Some err \<Rightarrow> Inl err
           | None \<Rightarrow>
               Inr \<lparr>v_title = t, v_description = d, v_status = st, v_priority = pr,
                    v_dueDate = du, v_tags = tg\<rparr>)))))))
      | _ \<Rightarrow> Inl ObjectBase)"

section \<open>The tasks collection\<close>

text \<open>
  \<^verbatim>\<open>taskSchema\<close>: \<^verbatim>\<open>trim\<close> is a setter of \<open>title\<close>, \<open>description\<close> and the tags; the
  validators (\<^verbatim>\<open>required\<close>, \<^verbatim>\<open>maxlength\<close>, \<^verbatim>\<open>enum\<close>) run when a document is saved and,
  with \<^verbatim>\<open>runValidators\<close>, on the paths an update sets. \<^verbatim>\<open>required\<close> rejects the empty
  string.
\<close>

definition title_valid :: "string \<Rightarrow> bool" where
  "title_valid t = (t \<noteq> [] \<and> length t \<le> 100)"

definition option_all :: "('a \<Rightarrow> bool) \<Rightarrow> 'a option \<Rightarrow> bool" where
  "option_all P x = (case x of None \<Rightarrow> True | Some y \<Rightarrow> P y)"

definition new_Task :: "ctx \<Rightarrow> task_value \<Rightarrow> oid \<Rightarrow> task" where
  "new_Task c v uid =
     \<lparr>task_id = new_id c,
      title = trim (v_title v),
      description = map_option trim (v_description v),
      status = (case v_status v of None \<Rightarrow> ''pending'' | Some x \<Rightarrow> x),
      priority = (case v_priority v of None \<Rightarrow> ''medium'' | Some x \<Rightarrow> x),
      dueDate = v_dueDate v,
      tags = (case v_tags v of None \<Rightarrow> [] | Some ts \<Rightarrow> map trim ts),
      userId = uid,
      createdAt = now c,
      updatedAt = now_save c\<rparr>"

definition task_validate :: "task \<Rightarrow> bool" where
  "task_validate t =
     (title_valid (title t) \<and> option_all (\<lambda>d. length d \<le> 500) (description t) \<and>
      status t \<in> set status_values \<and> priority t \<in> set priority_values \<and>
      list_all (\<lambda>g. length g \<le> 20) (tags t))"

definition task_insert :: "task \<Rightarrow> store \<Rightarrow> store_error + task \<times> store" where
  "task_insert t s =
     (if \<not> task_validate t then Inl ValidationError
      else if list_ex (\<lambda>x. task_id x = task_id t) (tasks s) then Inl DuplicateKey
      else Inr (t, s\<lparr>tasks := tasks s @ [t]\<rparr>))"

definition update_document :: "task_value \<Rightarrow> time \<Rightarrow> task \<Rightarrow> task" where
  "update_document v t x =
     x\<lparr>title := trim (v_title v),
       description := (case v_description v of None \<Rightarrow> description x | Some d \<Rightarrow> Some (trim d)),
       status := (case v_status v of None \<Rightarrow> status x | Some y \<Rightarrow> y),
       priority := (case v_priority v of None \<Rightarrow> priority x | Some y \<Rightarrow> y),
       dueDate := (case v_dueDate v of None \<Rightarrow> dueDate x | Some d \<Rightarrow> Some d),
       tags := (case v_tags v of None \<Rightarrow> tags x | Some ts \<Rightarrow> map trim ts),
       updatedAt := t\<rparr>"

definition update_validate :: "task_value \<Rightarrow> bool" where
  "update_validate v =
     (title_valid (trim (v_title v)) \<and>
      option_all (\<lambda>d. length (trim d) \<le> 500) (v_description v) \<and>
      option_all (\<lambda>x. x \<in> set status_values) (v_status v) \<and>
      option_all (\<lambda>x. x \<in> set priority_values) (v_priority v) \<and>
      option_all (list_all (\<lambda>g. length (trim g) \<le> 20)) (v_tags v))"

definition Task_findOneAndUpdate ::
  "oid option \<Rightarrow> oid \<Rightarrow> task_value \<Rightarrow> time \<Rightarrow> store \<Rightarrow> store_error + task option \<times> store" where
  "Task_findOneAndUpdate i uid v t s =
     (case i of
        None \<Rightarrow> Inl CastError
      | Some n \<Rightarrow>
          if \<not> update_validate v then Inl ValidationError
          else (case List.find (\<lambda>x. task_id x = n \<and> userId x = uid) (tasks s) of
                  None \<Rightarrow> Inr (None, s)
                | Some x \<Rightarrow>
                    Inr (Some (update_document v t x),
                         s\<lparr>tasks := update_first (\<lambda>x. task_id x = n \<and> userId x = uid)
                                      (update_document v t) (tasks s)\<rparr>)))"

definition Task_findOneAndDelete ::
  "oid option \<Rightarrow> oid \<Rightarrow> store \<Rightarrow> store_error + task option \<times> store" where
  "Task_findOneAndDelete i uid s =
     (case i of
        None \<Rightarrow> Inl CastError
      | Some n \<Rightarrow>
          (case List.find (\<lambda>x. task_id x = n \<and> userId x = uid) (tasks s) of
             None \<Rightarrow> Inr (None, s)
           | Some x \<Rightarrow>
               Inr (Some x, s\<lparr>tasks := delete_first (\<lambda>x. task_id x = n \<and> userId x = uid) (tasks s)\<rparr>)))"

subsection \<open>Numbers\<close>

text \<open>
  Arithmetic on binary64 values: the exact result is rounded to the nearest value with
  a 53-bit significand, ties to the even significand; results below the normal range
  are rounded on the grid of \<open>2 powi -1074\<close>, and a result that rounds to \<open>2 powi 1024\<close>
  or more is an infinity. \<open>bitlen\<close> is the number of binary digits of a positive
  integer and \<open>ilog2\<close> the exponent of the greatest power of two below a positive
  rational.
\<close>

function bitlen :: "int \<Rightarrow> nat" where
  "bitlen n = (if n \<le> 0 then 0 else Suc (bitlen (n div 2)))"
  by pat_completeness auto
termination
  by (relation "measure nat") auto

declare bitlen.simps [simp del]

definition ilog2 :: "rat \<Rightarrow> int" where
  "ilog2 a =
     (let (n, d) = quotient_of a;
          k = int (bitlen n) - int (bitlen d)
      in if 2 powi k \<le> a then k else k - 1)"

definition round_even :: "rat \<Rightarrow> int" where
  "round_even m =
     (let f = \<lfloor>m\<rfloor>; r = m - of_int f
      in if 1 / 2 < r \<or> (r = 1 / 2 \<and> odd f) then f + 1 else f)"

definition double_exponent :: "rat \<Rightarrow> int" where
  "double_exponent a = max (ilog2 a - 52) (- 1074)"

definition double_overflow :: rat where
  "double_overflow = 2 powi 1024"

definition round_double :: "rat \<Rightarrow> jsnum" where
  "round_double q =
     (if q = 0 then Fin 0
      else
        let e = double_exponent \<bar>q\<bar>;
            v = of_int (round_even (\<bar>q\<bar> / 2 powi e)) * 2 powi e
        in if double_overflow \<le> v then (if 0 < q then PosInf else NegInf)
           else Fin (sgn q * v))"

text \<open>
  The operations of the list handler: \<^verbatim>\<open>-\<close>, \<^verbatim>\<open>*\<close>, \<^verbatim>\<open>/\<close> and \<^verbatim>\<open>Math.ceil\<close>.
  \<open>json_number\<close> is a number as \<^verbatim>\<open>res.json\<close> writes it.
\<close>

fun js_sign :: "jsnum \<Rightarrow> int" where
  "js_sign NaN = 0"
| "js_sign PosInf = 1"
| "js_sign NegInf = - 1"
| "js_sign (Fin a) = (if a = 0 then 0 else if 0 < a then 1 else - 1)"

fun js_sub :: "jsnum \<Rightarrow> jsnum \<Rightarrow> jsnum" where
  "js_sub NaN _ = NaN"
| "js_sub _ NaN = NaN"
| "js_sub (Fin a) (Fin b) = round_double (a - b)"
| "js_sub PosInf PosInf = NaN"
| "js_sub NegInf NegInf = NaN"
| "js_sub PosInf _ = PosInf"
| "js_sub NegInf _ = NegInf"
| "js_sub (Fin a) PosInf = NegInf"
| "js_sub (Fin a) NegInf = PosInf"

fun js_mul :: "jsnum \<Rightarrow> jsnum \<Rightarrow> jsnum" where
  "js_mul NaN _ = NaN"
| "js_mul _ NaN = NaN"
| "js_mul (Fin a) (Fin b) = round_double (a * b)"
| "js_mul x y =
     (let g = js_sign x * js_sign y
      in if g = 0 then NaN else if 0 < g then PosInf else NegInf)"

fun js_div :: "jsnum \<Rightarrow> jsnum \<Rightarrow> jsnum" where
  "js_div NaN _ = NaN"
| "js_div _ NaN = NaN"
| "js_div (Fin a) (Fin b) =
     (if b = 0 then (if a = 0 then NaN else if 0 < a then PosInf else NegInf)
      else round_double (a / b))"
| "js_div (Fin a) _ = Fin 0"
| "js_div x (Fin b) = (if 0 \<le> js_sign x * js_sign (Fin b) then x else js_sub (Fin 0) x)"
| "js_div _ _ = NaN"

fun js_ceil :: "jsnum \<Rightarrow> jsnum" where
  "js_ceil (Fin a) = Fin (of_int \<lceil>a\<rceil>)"
| "js_ceil x = x"

fun json_number :: "jsnum \<Rightarrow> json" where
  "json_number (Fin a) = JNum (Fin a)"
| "json_number _ = JNull"

subsection \<open>Cursors\<close>

text \<open>
  The document store applies \<open>sort\<close>, then \<open>skip\<close>, then \<open>limit\<close>. It rejects a skip that
  is negative or not an integer and a limit that is not an integer; a limit of 0 is no
  limit, and a negative limit is its absolute value. Among documents with equal sort
  keys the store promises no order: during one request they come in ascending
  \<open>scan_rank\<close>, and documents that also agree there in the order of the collection.
\<close>

definition is_integer :: "rat \<Rightarrow> bool" where
  "is_integer a = (of_int \<lfloor>a\<rfloor> = a)"

definition cursor_skip :: "jsnum \<Rightarrow> 'a list \<Rightarrow> store_error + 'a list" where
  "cursor_skip k xs =
     (case k of
        Fin a \<Rightarrow> if a < 0 \<or> \<not> is_integer a then Inl BadValue else Inr (drop (nat \<lfloor>a\<rfloor>) xs)
      | _ \<Rightarrow> Inl BadValue)"

definition cursor_limit :: "jsnum \<Rightarrow> 'a list \<Rightarrow> store_error + 'a list" where
  "cursor_limit k xs =
     (case k of
        Fin a \<Rightarrow>
          if \<not> is_integer a then Inl BadValue
          else if a = 0 then Inr xs
          else Inr (take (nat \<bar>\<lfloor>a\<rfloor>\<bar>) xs)
      | _ \<Rightarrow> Inl BadValue)"

definition sorted_documents :: "ctx \<Rightarrow> task list \<Rightarrow> task list" where
  "sorted_documents c xs =
     sort_key (\<lambda>t. - createdAt t) (sort_key (\<lambda>t. scan_rank c (task_id t)) xs)"

definition Task_find ::
  "ctx \<Rightarrow> (task \<Rightarrow> bool) \<Rightarrow> jsnum \<Rightarrow> jsnum \<Rightarrow> store \<Rightarrow> store_error + task list" where
  "Task_find c P li sk s =
     (case cursor_skip sk (sorted_documents c (filter P (tasks s))) of
        Inl err \<Rightarrow> Inl err
      | Inr xs \<Rightarrow> cursor_limit li xs)"

definition Task_countDocuments :: "(task \<Rightarrow> bool) \<Rightarrow> store \<Rightarrow> nat" where
  "Task_countDocuments P s = length (filter P (tasks s))"

section \<open>Task routes\<close>

definition truthy :: "string option \<Rightarrow> bool" where
  "truthy q = (case q of None \<Rightarrow> False | Some x \<Rightarrow> x \<noteq> [])"

definition query_number :: "env \<Rightarrow> rat \<Rightarrow> string option \<Rightarrow> jsnum" where
  "query_number e d q = (case q of None \<Rightarrow> Fin d | Some x \<Rightarrow> to_number e x)"

definition tasks_filter :: "claims \<Rightarrow> request \<Rightarrow> task \<Rightarrow> bool" where
  "tasks_filter u req t =
     (userId t = c_userId u \<and>
      (if truthy (query_status req) then Some (status t) = query_status req else True) \<and>
      (if truthy (query_priority req) then Some (priority t) = query_priority req else True))"

definition limit_arg :: "env \<Rightarrow> request \<Rightarrow> jsnum" where
  "limit_arg e req = js_mul (query_number e 10 (query_limit req)) (Fin 1)"

definition skip_arg :: "env \<Rightarrow> request \<Rightarrow> jsnum" where
  "skip_arg e req =
     js_mul (js_sub (query_number e 1 (query_page req)) (Fin 1)) (query_number e 10 (query_limit req))"

definition get_tasks_handler ::
  "env \<Rightarrow> ctx \<Rightarrow> claims \<Rightarrow> request \<Rightarrow> store \<Rightarrow> response \<times> store" where
  "get_tasks_handler e c u req s =
     (case Task_find c (tasks_filter u req) (limit_arg e req) (skip_arg e req) s of
        Inl err \<Rightarrow> (internal_error, s)
      | Inr ts \<Rightarrow>
          (let total = Task_countDocuments (tasks_filter u req) s
           in (respond 200
                 (TaskPage ts
                    (json_number
                       (js_ceil (js_div (Fin (of_nat total)) (query_number e 10 (query_limit req)))))
                    (case query_page req of None \<Rightarrow> JNum (Fin 1) | Some x \<Rightarrow> JStr x)
                    total),
               s)))"

definition post_tasks_handler :: "env \<Rightarrow> ctx \<Rightarrow> claims \<Rightarrow> request \<Rightarrow> store \<Rightarrow> response \<times> store" where
  "post_tasks_handler e c u req s =
     (case taskSchema_validation e (body req) of
        Inl err \<Rightarrow> (respond 400 (ValidationMsg err), s)
      | Inr v \<Rightarrow>
          (case task_insert (new_Task c v (c_userId u)) s of
             Inl err \<Rightarrow> (internal_error, s)
           | Inr (t, s') \<Rightarrow> (respond 201 (TaskDoc t), s')))"

definition task_not_found :: response where
  "task_not_found = respond 404 (ErrorMsg ''Task not found'')"

definition put_task_handler :: "env \<Rightarrow> ctx \<Rightarrow> claims \<Rightarrow> request \<Rightarrow> store \<Rightarrow> response \<times> store" where
  "put_task_handler e c u req s =
     (case taskSchema_validation e (body req) of
        Inl err \<Rightarrow> (respond 400 (ValidationMsg err), s)
      | Inr v \<Rightarrow>
          (case Task_findOneAndUpdate (params_id req) (c_userId u) v (now c) s of
             Inl err \<Rightarrow> (internal_error, s)
           | Inr (None, s') \<Rightarrow> (task_not_found, s')
           | Inr (Some t, s') \<Rightarrow> (respond 200 (TaskDoc t), s')))"

definition delete_task_handler :: "claims \<Rightarrow> request \<Rightarrow> store \<Rightarrow> response \<times> store" where
  "delete_task_handler u req s =
     (case Task_findOneAndDelete (params_id req) (c_userId u) s of
        Inl err \<Rightarrow> (internal_error, s)
      | Inr (None, s') \<Rightarrow> (task_not_found, s')
      | Inr (Some t, s') \<Rightarrow> (respond 200 (MessageBody ''Task deleted successfully''), s'))"

definition profile_handler :: "claims \<Rightarrow> request \<Rightarrow> store \<Rightarrow> response \<times> store" where
  "profile_handler u req s =
     (case List.find (\<lambda>x. user_id x = c_userId u) (users s) of
        None \<Rightarrow> (respond 404 (ErrorMsg ''User not found''), s)
      | Some x \<Rightarrow>
          (respond 200
             (ProfileDoc \<lparr>pr_id = user_id x, pr_username = username x, pr_email = email x,
                          pr_role = role x, pr_isActive = isActive x,
                          pr_lastLogin = lastLogin x, pr_createdAt = user_createdAt x\<rparr>),
           s))"

definition get_tasks :: "env \<Rightarrow> ctx \<Rightarrow> request \<Rightarrow> store \<Rightarrow> response \<times> store" where
  "get_tasks e c = protected e c (get_tasks_handler e c)"

definition post_tasks :: "env \<Rightarrow> ctx \<Rightarrow> request \<Rightarrow> store \<Rightarrow> response \<times> store" where
  "post_tasks e c = protected e c (post_tasks_handler e c)"

definition put_task :: "env \<Rightarrow> ctx \<Rightarrow> request \<Rightarrow> store \<Rightarrow> response \<times> store" where
  "put_task e c = protected e c (put_task_handler e c)"

definition delete_task :: "env \<Rightarrow> ctx \<Rightarrow> request \<Rightarrow> store \<Rightarrow> response \<times> store" where
  "delete_task e c = protected e c delete_task_handler"

definition get_profile :: "env \<Rightarrow> ctx \<Rightarrow> request \<Rightarrow> store \<Rightarrow> response \<times> store" where
  "get_profile e c = protected e c profile_handler"

section \<open>A sample deployment\<close>

text \<open>
  A concrete environment, store and requests on which the handlers can be run: the
  hash is a prefix, two tokens are known to the verifier, and the numeric coercion
  reads decimal integers.
\<close>

fun decimal :: "nat \<Rightarrow> string \<Rightarrow> nat option" where
  "decimal a [] = Some a"
| "decimal a (d # ds) =
     (let n = (of_char d :: nat)
      in if 48 \<le> n \<and> n \<le> 57 then decimal (10 * a + (n - 48)) ds else None)"

definition sample_number :: "string \<Rightarrow> jsnum" where
  "sample_number x =
     (case x of
        [] \<Rightarrow> Fin 0
      | d # ds \<Rightarrow>
          if d = CHR ''-'' \<and> ds \<noteq> []
          then (case decimal 0 ds of Some n \<Rightarrow> Fin (- of_nat n) | None \<Rightarrow> NaN)
          else (case decimal 0 x of Some n \<Rightarrow> Fin (of_nat n) | None \<Rightarrow> NaN))"

definition alice_claims :: claims where
  "alice_claims = \<lparr>c_userId = 1, c_username = ''alice'', c_role = ''user''\<rparr>"

definition bob_claims :: claims where
  "bob_claims = \<lparr>c_userId = 2, c_username = ''bob'', c_role = ''user''\<rparr>"

definition sample_env :: env where
  "sample_env =
     \<lparr>joi_email = email_match,
      joi_iso_date = (\<lambda>x. if x = ''1970-01-01T00:00:05.000Z'' then Some 5000 else None),
      bcrypt_hash = (\<lambda>p. CHR ''$'' # p),
      bcrypt_compare = (\<lambda>p h. h = CHR ''$'' # p),
      jwt_sign = (\<lambda>cl t. ''jwt-'' @ c_username cl),
      jwt_verify = (\<lambda>k t. if k = ''jwt-alice'' then Some alice_claims
                           else if k = ''jwt-bob'' then Some bob_claims else None),
      to_number = sample_number\<rparr>"

definition sample_ctx :: ctx where
  "sample_ctx = \<lparr>now = 2000, now_save = 2001, new_id = 100, scan_rank = (\<lambda>i. 0)\<rparr>"

definition sample_user :: "oid \<Rightarrow> string \<Rightarrow> bool \<Rightarrow> user" where
  "sample_user i n a =
     \<lparr>user_id = i, username = n, email = n @ ''@example.com'', password = ''$secret1'',
      role = ''user'', isActive = a, lastLogin = None, user_createdAt = 0\<rparr>"

definition sample_task :: "oid \<Rightarrow> oid \<Rightarrow> time \<Rightarrow> task" where
  "sample_task i uid t =
     \<lparr>task_id = i, title = ''write report'', description = None, status = ''pending'',
      priority = ''medium'', dueDate = None, tags = [], userId = uid,
      createdAt = t, updatedAt = t\<rparr>"

definition sample_store :: store where
  "sample_store =
     \<lparr>users = [sample_user 1 ''alice'' True, sample_user 2 ''bob'' True,
               sample_user 3 ''carol'' False],
      tasks = [sample_task 10 1 1000, sample_task 11 2 1500]\<rparr>"

definition sample_request :: request where
  "sample_request =
     \<lparr>headers_authorization = None, body = JObj [], params_id = None, query_page = None,
      query_limit = None, query_status = None, query_priority = None\<rparr>"

definition register_body :: "string \<Rightarrow> string \<Rightarrow> string \<Rightarrow> json" where
  "register_body n m p = JObj [(''username'', JStr n), (''email'', JStr m), (''password'', JStr p)]"


definition sample_store_tie :: store where
  "sample_store_tie =
     \<lparr>users = users sample_store,
      tasks = map (\<lambda>i. sample_task (20 + i) 1 (if i = 7 then 600 else 100 * int i)) [0 ..< 12]\<rparr>"

definition login_body :: "string \<Rightarrow> string \<Rightarrow> json" where
  "login_body m p = JObj [(''email'', JStr m), (''password'', JStr p)]"

definition bearer :: "string \<Rightarrow> request" where
  "bearer k = sample_request\<lparr>headers_authorization := Some (''Bearer '' @ k)\<rparr>"

lemmas sample_defs =
  sample_env_def sample_ctx_def sample_user_def sample_task_def sample_store_def
  sample_request_def register_body_def login_body_def bearer_def alice_claims_def
  bob_claims_def sample_number_def

lemmas joi_defs =
  joi_required_def joi_optional_def joi_unknown_def joi_string_def joi_valid_def
  joi_date_iso_def joi_array_def rule_alphanum_def rule_min_def rule_max_def rule_email_def

section \<open>Strings that the setters leave alone\<close>

lemma is_alnum_not_space: "is_alnum ch \<Longrightarrow> \<not> is_space ch"
  by (auto simp: is_alnum_def is_space_def Let_def)

lemma trim_no_space: "list_all (\<lambda>ch. \<not> is_space ch) xs \<Longrightarrow> trim xs = xs"
proof -
  assume a: "list_all (\<lambda>ch. \<not> is_space ch) xs"
  have 1: "dropWhile is_space xs = xs" using a by (cases xs) auto
  have "list_all (\<lambda>ch. \<not> is_space ch) (rev xs)" using a by (simp add: list_all_iff)
  then have 2: "dropWhile is_space (rev xs) = rev xs" by (cases "rev xs") auto
  show ?thesis by (simp add: trim_def 1 2)
qed

lemma trim_alnum: "list_all is_alnum xs \<Longrightarrow> trim xs = xs"
  by (rule trim_no_space) (auto simp: list_all_iff is_alnum_not_space)

section \<open>Registration: what the schema accepts\<close>

lemma registerSchema_password_iff:
  "registerSchema_password (JStr p) = Inr p \<longleftrightarrow> 6 \<le> length p \<and> length p \<le> 128"
  by (auto simp: registerSchema_password_def joi_string_def rule_min_def rule_max_def)

lemma registerSchema_password_only_string:
  "registerSchema_password j = Inr p \<Longrightarrow> j = JStr p"
  by (auto simp: registerSchema_password_def joi_string_def split: json.splits if_splits option.splits)

lemma registerSchema_username_iff:
  "registerSchema_username (JStr n) = Inr n \<longleftrightarrow>
     3 \<le> length n \<and> length n \<le> 30 \<and> list_all is_alnum n"
  by (auto simp: registerSchema_username_def joi_string_def rule_min_def rule_max_def
      rule_alphanum_def)

lemma registerSchema_username_only_string:
  "registerSchema_username j = Inr n \<Longrightarrow> j = JStr n"
  by (auto simp: registerSchema_username_def joi_string_def split: json.splits if_splits option.splits)

lemma register_invalid:
  "registerSchema e (body req) = Inl err \<Longrightarrow>
   post_auth_register e c req s = (respond 400 (ValidationMsg err), s)"
  by (simp add: post_auth_register_def)

lemma registerSchema_fields:
  assumes "registerSchema e (JObj kv) = Inr v"
  shows "joi_required kv ''username'' registerSchema_username = Inr (r_username v)"
    and "joi_required kv ''email'' (registerSchema_email e) = Inr (r_email v)"
    and "joi_required kv ''password'' registerSchema_password = Inr (r_password v)"
    and "joi_unknown kv [''username'', ''email'', ''password''] = None"
  using assms
  by (auto simp: registerSchema_def split: sum.splits option.splits)

lemma registerSchema_object:
  "registerSchema e b = Inr v \<Longrightarrow> \<exists>kv. b = JObj kv"
  by (cases b) (auto simp: registerSchema_def)

lemma registerSchema_username_alnum:
  assumes "registerSchema e b = Inr v"
  shows "list_all is_alnum (r_username v) \<and> 3 \<le> length (r_username v) \<and>
         length (r_username v) \<le> 30"
proof -
  obtain kv where b: "b = JObj kv" using assms registerSchema_object by blast
  have "joi_required kv ''username'' registerSchema_username = Inr (r_username v)"
    using assms b registerSchema_fields(1) by blast
  then obtain j where "registerSchema_username j = Inr (r_username v)"
    by (auto simp: joi_required_def split: option.splits)
  then have "registerSchema_username (JStr (r_username v)) = Inr (r_username v)"
    using registerSchema_username_only_string by blast
  then show ?thesis by (simp add: registerSchema_username_iff)
qed

text \<open>
  C10. Registration accepts a password exactly when its length is between 6 and 128:
  the password rule of the schema accepts the string \<open>p\<close> iff \<open>6 \<le> length p \<le> 128\<close>;
  a body the whole schema accepts has such a password; a body whose other keys pass is
  accepted when the password is in range; and a password outside the range is answered
  with status 400 and a validation message, the store being left as it was.
\<close>

theorem register_password_bounds:
  assumes "body req = JObj kv" and "map_of kv ''password'' = Some (JStr p)"
  shows "(registerSchema_password (JStr p) = Inr p \<longleftrightarrow> 6 \<le> length p \<and> length p \<le> 128) \<and>
         ((\<exists>v. registerSchema e (body req) = Inr v) \<longrightarrow> 6 \<le> length p \<and> length p \<le> 128) \<and>
         (joi_required kv ''username'' registerSchema_username = Inr n \<and>
          joi_required kv ''email'' (registerSchema_email e) = Inr m \<and>
          joi_unknown kv [''username'', ''email'', ''password''] = None \<and>
          6 \<le> length p \<and> length p \<le> 128 \<longrightarrow>
            registerSchema e (body req) = Inr \<lparr>r_username = n, r_email = m, r_password = p\<rparr>) \<and>
         (length p < 6 \<or> 128 < length p \<longrightarrow>
            (\<exists>err. post_auth_register e c req s = (respond 400 (ValidationMsg err), s)))"
proof -
  have pw: "registerSchema_password (JStr p) = Inr p" if "registerSchema e (JObj kv) = Inr v" for v
  proof -
    have "joi_required kv ''password'' registerSchema_password = Inr (r_password v)"
      using that by (rule registerSchema_fields(3))
    then have "registerSchema_password (JStr p) = Inr (r_password v)"
      using assms(2) by (simp add: joi_required_def)
    then show ?thesis using registerSchema_password_only_string by fastforce
  qed
  have c1: "registerSchema_password (JStr p) = Inr p \<longleftrightarrow> 6 \<le> length p \<and> length p \<le> 128"
    by (rule registerSchema_password_iff)
  have c2: "(\<exists>v. registerSchema e (body req) = Inr v) \<longrightarrow> 6 \<le> length p \<and> length p \<le> 128"
    using pw c1 assms(1) by auto
  have c3: "registerSchema e (body req) = Inr \<lparr>r_username = n, r_email = m, r_password = p\<rparr>"
    if a: "joi_required kv ''username'' registerSchema_username = Inr n"
      "joi_required kv ''email'' (registerSchema_email e) = Inr m"
      "joi_unknown kv [''username'', ''email'', ''password''] = None"
      "6 \<le> length p \<and> length p \<le> 128"
  proof -
    have "registerSchema_password (JStr p) = Inr p"
      using a(4) by (simp add: registerSchema_password_iff)
    then have "joi_required kv ''password'' registerSchema_password = Inr p"
      using assms(2) by (simp add: joi_required_def)
    then show ?thesis using a assms(1) by (simp add: registerSchema_def)
  qed
  have c4: "\<exists>err. post_auth_register e c req s = (respond 400 (ValidationMsg err), s)"
    if out: "length p < 6 \<or> 128 < length p"
  proof -
    have "\<not> (\<exists>v. registerSchema e (JObj kv) = Inr v)"
      using pw c1 out by auto
    then obtain err where "registerSchema e (body req) = Inl err"
      using assms(1) by (cases "registerSchema e (JObj kv)") auto
    then show ?thesis using register_invalid by blast
  qed
  show ?thesis using c1 c2 c3 c4 by blast
qed

theorem register_password_bounds_witness:
  "(\<exists>err. post_auth_register sample_env sample_ctx
            (sample_request\<lparr>body := register_body ''dave'' ''dave@example.com'' ''abc''\<rparr>)
            sample_store = (respond 400 (ValidationMsg err), sample_store)) \<and>
   registerSchema sample_env (register_body ''dave'' ''dave@example.com'' ''secret1'') =
     Inr \<lparr>r_username = ''dave'', r_email = ''dave@example.com'', r_password = ''secret1''\<rparr>"
proof -
  have short: "\<exists>err. post_auth_register sample_env sample_ctx
            (sample_request\<lparr>body := register_body ''dave'' ''dave@example.com'' ''abc''\<rparr>)
            sample_store = (respond 400 (ValidationMsg err), sample_store)"
    using register_password_bounds
      [where req = "sample_request\<lparr>body := register_body ''dave'' ''dave@example.com'' ''abc''\<rparr>"
         and kv = "[(''username'', JStr ''dave''), (''email'', JStr ''dave@example.com''),
                    (''password'', JStr ''abc'')]"
         and p = "''abc''" and e = sample_env and c = sample_ctx and s = sample_store]
    by (simp add: register_body_def)
  have ok: "registerSchema sample_env (register_body ''dave'' ''dave@example.com'' ''secret1'') =
     Inr \<lparr>r_username = ''dave'', r_email = ''dave@example.com'', r_password = ''secret1''\<rparr>"
    using register_password_bounds
      [where req = "sample_request\<lparr>body := register_body ''dave'' ''dave@example.com'' ''secret1''\<rparr>"
         and kv = "[(''username'', JStr ''dave''), (''email'', JStr ''dave@example.com''),
                    (''password'', JStr ''secret1'')]"
         and p = "''secret1''" and e = sample_env and n = "''dave''" and m = "''dave@example.com''"]
    by (simp add: register_body_def registerSchema_username_def registerSchema_email_def
        joi_defs sample_env_def is_alnum_def email_match_def plain_def is_space_def upt_rec)
  show ?thesis using short ok by blast
qed



section \<open>The token gate\<close>

lemma protected_no_token:
  "header_token (headers_authorization req) = None \<or> header_token (headers_authorization req) = Some [] \<Longrightarrow>
   protected e c h req s = (respond 401 (ErrorMsg ''Access token required''), s)"
  by (auto simp: protected_def authenticateToken_def token_required_def)

lemma protected_bad_token:
  "header_token (headers_authorization req) = Some t \<Longrightarrow> t \<noteq> [] \<Longrightarrow> jwt_verify e t (now c) = None \<Longrightarrow>
   protected e c h req s = (respond 403 (ErrorMsg ''Invalid token''), s)"
  by (auto simp: protected_def authenticateToken_def invalid_token_def)

lemma protected_ok:
  "authenticateToken e c req = Inr u \<Longrightarrow> protected e c h req s = h u req s"
  by (simp add: protected_def)

lemma header_token_absent: "header_token None = None"
  by (simp add: header_token_def)

lemma split_space_nonempty: "split_space a \<noteq> []"
  by (induction a) (auto split: list.splits)

lemma split_space_nospace: "CHR '' '' \<notin> set a \<Longrightarrow> split_space a = [a]"
  by (induction a) auto

lemma split_space_append:
  "CHR '' '' \<notin> set a \<Longrightarrow> split_space (a @ CHR '' '' # b) = a # split_space b"
  by (induction a) auto

lemma header_token_bearer:
  assumes "CHR '' '' \<notin> set t"
  shows "header_token (Some (''Bearer '' @ t)) = Some t"
proof -
  have "split_space (''Bearer'' @ CHR '' '' # t) = ''Bearer'' # split_space t"
    by (rule split_space_append) simp
  then have "split_space (''Bearer '' @ t) = [''Bearer'', t]"
    using assms by (simp add: split_space_nospace)
  then show ?thesis by (simp add: header_token_def)
qed

lemma header_token_no_space:
  "CHR '' '' \<notin> set a \<Longrightarrow> header_token (Some a) = None \<or> header_token (Some a) = Some []"
  by (simp add: header_token_def split_space_nospace)

section \<open>Rounding to binary64\<close>

text \<open>
  Integers of magnitude up to \<open>2 ^ 53\<close> are binary64 values, so rounding returns them
  unchanged; and the rounded quotient of two such positive integers lies strictly above
  the integer below the exact quotient and not above the next one, so that its ceiling
  is the ceiling of the exact quotient.
\<close>

lemma bitlen_bounds: "0 < n \<Longrightarrow> 2 ^ (bitlen n - 1) \<le> n \<and> n < 2 ^ bitlen n"
proof (induction n rule: bitlen.induct)
  case (1 n)
  show ?case
  proof (cases "n = 1")
    case True
    then show ?thesis by (simp add: bitlen.simps[of 1] bitlen.simps[of 0])
  next
    case False
    then have h: "0 < n div 2" using "1.prems" by simp
    have ih: "2 ^ (bitlen (n div 2) - 1) \<le> n div 2 \<and> n div 2 < 2 ^ bitlen (n div 2)"
      using "1.IH" "1.prems" h by simp
    have bl: "bitlen n = Suc (bitlen (n div 2))" using "1.prems" by (simp add: bitlen.simps[of n])
    have pos: "0 < bitlen (n div 2)" using h by (simp add: bitlen.simps[of "n div 2"])
    then obtain j where j: "bitlen (n div 2) = Suc j" by (cases "bitlen (n div 2)") auto
    have "2 * 2 ^ j \<le> 2 * (n div 2)" using ih j by simp
    also have "\<dots> \<le> n" by simp
    finally have lo: "2 ^ (bitlen n - 1) \<le> n" by (simp add: bl j)
    have "n < 2 * (n div 2) + 2" by presburger
    also have "\<dots> \<le> 2 * 2 ^ bitlen (n div 2)" using ih by simp
    finally have hi: "n < 2 ^ bitlen n" by (simp add: bl)
    show ?thesis using lo hi by simp
  qed
qed

lemma bitlen_pos: "0 < n \<Longrightarrow> 0 < bitlen n"
  by (simp add: bitlen.simps[of n])

lemma ilog2_bounds:
  assumes "0 < a"
  shows "2 powi (ilog2 a) \<le> a \<and> a < 2 powi (ilog2 a + 1)"
proof -
  obtain n d where qd: "quotient_of a = (n, d)" by (cases "quotient_of a")
  have d: "0 < d" using qd by (rule quotient_of_denom_pos)
  have a: "a = of_int n / of_int d" using qd by (rule quotient_of_div)
  have n: "0 < n" using assms a d by (simp add: zero_less_divide_iff)
  let ?bn = "bitlen n" and ?bd = "bitlen d"
  have bn0: "0 < ?bn" using n by (rule bitlen_pos)
  have bd0: "0 < ?bd" using d by (rule bitlen_pos)
  let ?k = "int ?bn - int ?bd"
  have rn: "(2::rat) ^ (?bn - 1) \<le> of_int n" "(of_int n :: rat) < 2 ^ ?bn"
  proof -
    have "(of_int (2 ^ (?bn - 1)) :: rat) \<le> of_int n"
      using bitlen_bounds[OF n] by (simp only: of_int_le_iff)
    then show "(2::rat) ^ (?bn - 1) \<le> of_int n" by simp
    have "(of_int n :: rat) < of_int (2 ^ ?bn)"
      using bitlen_bounds[OF n] by (simp only: of_int_less_iff)
    then show "(of_int n :: rat) < 2 ^ ?bn" by simp
  qed
  have rd: "(2::rat) ^ (?bd - 1) \<le> of_int d" "(of_int d :: rat) < 2 ^ ?bd"
  proof -
    have "(of_int (2 ^ (?bd - 1)) :: rat) \<le> of_int d"
      using bitlen_bounds[OF d] by (simp only: of_int_le_iff)
    then show "(2::rat) ^ (?bd - 1) \<le> of_int d" by simp
    have "(of_int d :: rat) < of_int (2 ^ ?bd)"
      using bitlen_bounds[OF d] by (simp only: of_int_less_iff)
    then show "(of_int d :: rat) < 2 ^ ?bd" by simp
  qed
  have dpos: "(0::rat) < of_int d" using d by simp
  have up: "a < 2 powi (?k + 1)"
  proof -
    have "a * of_int d = of_int n" using a dpos by simp
    also have "\<dots> < 2 ^ ?bn" by (rule rn(2))
    also have "\<dots> = 2 powi (?k + 1) * 2 ^ (?bd - 1)"
    proof -
      have ex: "?k + 1 + int (?bd - 1) = int ?bn" using bd0 by simp
      have "(2::rat) powi (int ?bn) = 2 powi (?k + 1) * 2 powi (int (?bd - 1))"
        by (subst ex[symmetric]) (rule power_int_add, simp)
      then show ?thesis by (simp only: power_int_of_nat)
    qed
    also have "\<dots> \<le> 2 powi (?k + 1) * of_int d"
      using rd(1) by (intro mult_left_mono) auto
    finally show ?thesis using dpos by simp
  qed
  have low: "2 powi (?k - 1) \<le> a"
  proof -
    have "2 powi (?k - 1) * of_int d \<le> 2 powi (?k - 1) * (2::rat) ^ ?bd"
      using rd(2) by (intro mult_left_mono) auto
    also have "\<dots> = 2 ^ (?bn - 1)"
    proof -
      have ex: "?k - 1 + int ?bd = int (?bn - 1)" using bn0 by simp
      have "(2::rat) powi (int (?bn - 1)) = 2 powi (?k - 1) * 2 powi (int ?bd)"
        by (subst ex[symmetric]) (rule power_int_add, simp)
      then show ?thesis by (simp only: power_int_of_nat)
    qed
    also have "\<dots> \<le> of_int n" by (rule rn(1))
    also have "\<dots> = a * of_int d" using a dpos by simp
    finally show ?thesis using dpos by simp
  qed
  show ?thesis
  proof (cases "2 powi ?k \<le> a")
    case True
    then have "ilog2 a = ?k" by (simp add: ilog2_def qd)
    then show ?thesis using True up by simp
  next
    case False
    then have "ilog2 a = ?k - 1" by (simp add: ilog2_def qd)
    then show ?thesis using False low by simp
  qed
qed


lemma pow2_pos: "(0::rat) < 2 powi k"
  by simp

lemma ilog2_lt: "0 < a \<Longrightarrow> a < 2 powi k \<Longrightarrow> ilog2 a < k"
proof (rule ccontr)
  assume a: "0 < a" "a < 2 powi k" and "\<not> ilog2 a < k"
  then have "k \<le> ilog2 a" by simp
  then have "(2::rat) powi k \<le> 2 powi (ilog2 a)" by (intro power_int_increasing) auto
  also have "\<dots> \<le> a" using ilog2_bounds[OF a(1)] by simp
  finally show False using a(2) by simp
qed

lemma ilog2_ge: "0 < a \<Longrightarrow> 2 powi k \<le> a \<Longrightarrow> k \<le> ilog2 a"
proof (rule ccontr)
  assume a: "0 < a" "2 powi k \<le> a" and "\<not> k \<le> ilog2 a"
  then have "ilog2 a + 1 \<le> k" by simp
  then have "(2::rat) powi (ilog2 a + 1) \<le> 2 powi k" by (intro power_int_increasing) auto
  then show False using ilog2_bounds[OF a(1)] a(2) by simp
qed

lemma round_even_int: "round_even (of_int i) = i"
  by (simp add: round_even_def)

lemma round_even_bounds: "\<lfloor>m\<rfloor> \<le> round_even m \<and> round_even m \<le> \<lfloor>m\<rfloor> + 1"
  by (simp add: round_even_def Let_def)

lemma round_even_up: "1 / 2 < m - of_int \<lfloor>m\<rfloor> \<Longrightarrow> round_even m = \<lfloor>m\<rfloor> + 1"
  by (simp add: round_even_def Let_def)

lemma below_overflow: "a \<le> 2 ^ 53 \<Longrightarrow> \<not> double_overflow \<le> a"
proof -
  assume a: "a \<le> 2 ^ 53"
  have "(2::rat) powi 53 < 2 powi 1024" by (intro power_int_strict_increasing) auto
  then have "(2::rat) ^ 53 < double_overflow" by (simp only: double_overflow_def power_int_numeral)
  then show ?thesis using a by linarith
qed

lemma round_double_grid:
  assumes "q \<noteq> 0" and "\<bar>q\<bar> / 2 powi (double_exponent \<bar>q\<bar>) = of_int i"
    and "\<bar>q\<bar> \<le> 2 ^ 53"
  shows "round_double q = Fin q"
proof -
  let ?e = "double_exponent \<bar>q\<bar>"
  have "of_int i * 2 powi ?e = \<bar>q\<bar>"
    using assms(2) by (simp add: field_simps)
  then have v: "of_int (round_even (\<bar>q\<bar> / 2 powi ?e)) * 2 powi ?e = \<bar>q\<bar>"
    by (simp only: assms(2) round_even_int)
  have s: "sgn q * \<bar>q\<bar> = q" by (simp add: sgn_mult_abs)
  show ?thesis
    unfolding round_double_def Let_def v
    using assms(1) below_overflow[OF assms(3)] s by simp
qed

lemma round_double_int:
  assumes "\<bar>n\<bar> \<le> 2 ^ 53"
  shows "round_double (of_int n) = Fin (of_int n)"
proof (cases "n = 0")
  case True
  then show ?thesis by (simp add: round_double_def)
next
  case False
  let ?a = "\<bar>of_int n :: rat\<bar>"
  have a1: "1 \<le> ?a" using False by (simp flip: of_int_abs)
  have a0: "0 < ?a" using a1 by linarith
  have a53: "?a \<le> 2 ^ 53"
  proof -
    have "(of_int \<bar>n\<bar> :: rat) \<le> of_int (2 ^ 53)" using assms by (simp only: of_int_le_iff)
    then show ?thesis by simp
  qed
  let ?x = "ilog2 ?a"
  have x0: "0 \<le> ?x" using ilog2_ge[OF a0, of 0] a1 by simp
  have x53: "?x \<le> 53"
  proof -
    have "(2::rat) ^ 53 < 2 ^ 54" by simp
    then have "?a < 2 powi 54" using a53 by (simp only: power_int_numeral)
    then have "?x < 54" using ilog2_lt[OF a0] by blast
    then show ?thesis by simp
  qed
  have e: "double_exponent ?a = ?x - 52" using x0 by (simp add: double_exponent_def)
  have "\<exists>i. ?a / 2 powi (?x - 52) = of_int i"
  proof (cases "?x = 53")
    case True
    have "2 powi 53 \<le> ?a" using ilog2_bounds[OF a0] True by simp
    then have "?a = 2 ^ 53" using a53 by simp
    then have "?a / 2 powi (?x - 52) = of_int (2 ^ 52)" using True by simp
    then show ?thesis by blast
  next
    case F: False
    then have le: "?x \<le> 52" using x53 by simp
    have "(2::rat) powi (?x - 52) = inverse (2 powi (52 - ?x))"
      using power_int_minus[of "2::rat" "52 - ?x"] by simp
    also have "2 powi (52 - ?x) = (2::rat) ^ nat (52 - ?x)" using le by (simp add: power_int_def)
    finally have "?a / 2 powi (?x - 52) = ?a * 2 ^ nat (52 - ?x)" by (simp add: field_simps)
    also have "\<dots> = of_int (\<bar>n\<bar> * 2 ^ nat (52 - ?x))" by simp
    finally show ?thesis by blast
  qed
  then obtain i where "?a / 2 powi (double_exponent ?a) = of_int i" using e by auto
  then show ?thesis using round_double_grid[of "of_int n" i] False a53 by simp
qed


lemma round_double_quotient:
  fixes n l :: int
  assumes n: "0 < n" "n < 2 ^ 53" and l: "1 \<le> l" "l \<le> 2 ^ 53" and nd: "\<not> l dvd n"
  shows "\<exists>v. round_double (of_int n / of_int l) = Fin v \<and>
             of_int (n div l) < v \<and> v \<le> of_int (n div l + 1)"
proof -
  let ?q = "of_int n / of_int l :: rat"
  let ?k = "n div l"
  have lpos: "(0::rat) < of_int l" using l by simp
  have q0: "0 < ?q" using n lpos by simp
  have r0: "1 \<le> n mod l" "n mod l < l"
  proof -
    have "0 \<le> n mod l" "n mod l \<noteq> 0" using l nd by (simp_all add: dvd_eq_mod_eq_0)
    then show "1 \<le> n mod l" by linarith
    show "n mod l < l" using l by simp
  qed
  have qk: "?q = of_int ?k + of_int (n mod l) / of_int l"
  proof -
    have "of_int n = (of_int (l * ?k + n mod l) :: rat)" by simp
    also have "\<dots> = of_int l * of_int ?k + of_int (n mod l)" by (simp only: of_int_add of_int_mult)
    finally have "(of_int n :: rat) = of_int l * of_int ?k + of_int (n mod l)" .
    then have "?q = (of_int l * of_int ?k + of_int (n mod l)) / of_int l" by (simp only:)
    also have "\<dots> = of_int ?k + of_int (n mod l) / of_int l"
      using lpos by (simp add: add_divide_distrib)
    finally show ?thesis .
  qed
  have frac_lo: "1 / of_int l \<le> ?q - of_int ?k"
    using qk r0 lpos by (simp add: divide_le_cancel)
  have gtk: "of_int ?k < ?q"
  proof -
    have "(0::rat) < 1 / of_int l" using lpos by simp
    then show ?thesis using frac_lo by linarith
  qed
  have ltk: "?q < of_int (?k + 1)"
  proof -
    have "of_int (n mod l) / of_int l < (1::rat)" using r0 lpos by simp
    then show ?thesis using qk by simp
  qed
  have k0: "0 \<le> ?k" using n l by (simp add: pos_imp_zdiv_nonneg_iff)
  have kn: "?k \<le> n"
  proof -
    have "l * ?k \<le> n" using mult_div_mod_eq[of l n] r0 by linarith
    moreover have "?k * 1 \<le> ?k * l" using k0 l by (intro mult_left_mono) auto
    ultimately show ?thesis by (simp add: mult.commute)
  qed
  let ?x = "ilog2 ?q"
  have xb: "2 powi ?x \<le> ?q" "?q < 2 powi (?x + 1)" using ilog2_bounds[OF q0] by auto
  have q53: "?q < 2 powi 53"
  proof -
    have "?q \<le> of_int n" using n lpos l by (simp add: divide_le_eq mult_le_cancel_left1)
    also have "(of_int n :: rat) < of_int (2 ^ 53)" using n by (simp only: of_int_less_iff)
    finally show ?thesis by simp
  qed
  have x52: "?x \<le> 52" using ilog2_lt[OF q0 q53] by simp
  have qlow: "2 powi (- 53) \<le> ?q"
  proof -
    have "(of_int l :: rat) \<le> of_int (2 ^ 53)" using l by (simp only: of_int_le_iff)
    then have "(of_int l :: rat) \<le> 2 ^ 53" by simp
    then have "1 / (2 ^ 53 :: rat) \<le> 1 / of_int l" using lpos by (simp add: frac_le)
    also have "\<dots> \<le> ?q" using n lpos by (simp add: divide_le_cancel)
    finally have "1 / (2 ^ 53 :: rat) \<le> ?q" .
    moreover have "(2::rat) powi (- 53) = 1 / 2 ^ 53" by (simp add: inverse_eq_divide)
    ultimately show ?thesis by (simp only:)
  qed
  have xlow: "- 53 \<le> ?x" using ilog2_ge[OF q0 qlow] .
  have aq: "\<bar>?q\<bar> = ?q" using q0 by (rule abs_of_pos)
  have e: "double_exponent ?q = ?x - 52"
    using xlow by (simp add: double_exponent_def)
  define j where "j = nat (52 - ?x)"
  have pe: "(2::rat) powi (?x - 52) = 1 / 2 ^ j"
  proof -
    have "(2::rat) powi (?x - 52) = inverse (2 powi (52 - ?x))"
      using power_int_minus[of "2::rat" "52 - ?x"] by simp
    also have "2 powi (52 - ?x) = (2::rat) ^ j" using x52 by (simp add: power_int_def j_def)
    finally show ?thesis by (simp add: divide_inverse)
  qed
  define m where "m = ?q * 2 ^ j"
  have m: "?q / 2 powi (double_exponent ?q) = m"
    by (simp only: e pe m_def) simp
  define K where "K = ?k * 2 ^ j"
  have Kr: "(of_int K :: rat) = of_int ?k * 2 ^ j" by (simp add: K_def)
  have Kr': "(of_int (K + 2 ^ j) :: rat) = of_int (?k + 1) * 2 ^ j"
    by (simp add: K_def algebra_simps)
  have mK: "of_int K < m"
    unfolding Kr m_def using gtk by (intro mult_strict_right_mono) simp_all
  have mK': "m < of_int (K + 2 ^ j)"
    unfolding Kr' m_def using ltk by (intro mult_strict_right_mono) simp_all
  have fK: "K \<le> \<lfloor>m\<rfloor>" using mK by (simp add: le_floor_iff less_imp_le)
  have fK': "\<lfloor>m\<rfloor> < K + 2 ^ j" using mK' by (simp only: floor_less_iff)
  have small: "of_int l < (2::rat) * 2 ^ j"
  proof -
    define T where "T = (2::rat) ^ 53"
    define P where "P = (2::rat) powi ?x"
    have Ppos: "0 < P" by (simp add: P_def)
    have "(of_int n :: rat) < of_int (2 ^ 53)" using n by (simp only: of_int_less_iff)
    then have nT: "of_int n < T" by (simp add: T_def)
    have "of_int l * P \<le> of_int l * ?q"
      unfolding P_def using xb(1) lpos by (intro mult_left_mono) simp_all
    also have "\<dots> = of_int n" using lpos by simp
    finally have a: "of_int l * P < T" using nT by linarith
    have "(2::rat) powi (?x + (53 - ?x)) = 2 powi ?x * 2 powi (53 - ?x)"
      by (rule power_int_add) simp
    moreover have "(2::rat) powi (?x + (53 - ?x)) = T" by (simp add: T_def)
    moreover have "(2::rat) powi (53 - ?x) = 2 * 2 ^ j"
    proof -
      have "nat (53 - ?x) = Suc j" using x52 by (simp add: j_def)
      then show ?thesis using x52 by (simp add: power_int_def)
    qed
    ultimately have b: "T = P * (2 * 2 ^ j)" by (simp only: P_def)
    have "of_int l * P < (2 * 2 ^ j) * P" using a b by (simp only: mult.commute)
    then show ?thesis using Ppos mult_less_cancel_right_pos by blast
  qed
  have half: "1 / 2 < m - of_int K"
  proof -
    have "m - of_int K = (?q - of_int ?k) * 2 ^ j" by (simp add: m_def K_def algebra_simps)
    moreover have "1 / of_int l * 2 ^ j \<le> (?q - of_int ?k) * (2::rat) ^ j"
      using frac_lo by (intro mult_right_mono) simp_all
    moreover have "1 / 2 < 1 / of_int l * (2::rat) ^ j"
    proof -
      have "of_int l < (2 * 2 ^ j :: rat)" by (rule small)
      then have "of_int l / (2 * of_int l) < (2 * 2 ^ j :: rat) / (2 * of_int l)"
        using lpos by (intro divide_strict_right_mono) simp_all
      then show ?thesis using lpos by simp
    qed
    ultimately show ?thesis by linarith
  qed
  define g where "g = round_even m"
  have gK: "K + 1 \<le> g"
  proof (cases "\<lfloor>m\<rfloor> = K")
    case True
    then have "round_even m = \<lfloor>m\<rfloor> + 1" using half by (intro round_even_up) simp
    then show ?thesis using True by (simp add: g_def)
  next
    case False
    then have "K + 1 \<le> \<lfloor>m\<rfloor>" using fK by simp
    then show ?thesis using round_even_bounds[of m] by (simp add: g_def)
  qed
  have gK': "g \<le> K + 2 ^ j" using round_even_bounds[of m] fK' by (simp add: g_def)
  define v where "v = of_int g / (2::rat) ^ j"
  have vv: "of_int (round_even (?q / 2 powi (double_exponent ?q))) *
              2 powi (double_exponent ?q) = v"
    unfolding m unfolding e pe by (simp add: v_def g_def)
  have p0: "(0::rat) < 2 ^ j" by simp
  have v_lo: "of_int ?k < v"
  proof -
    have "K < g" using gK by simp
    then have "(of_int K :: rat) < of_int g" by (simp only: of_int_less_iff)
    then have "of_int ?k * (2::rat) ^ j < of_int g" by (simp add: K_def)
    then show ?thesis using p0 by (simp add: v_def pos_less_divide_eq)
  qed
  have v_hi: "v \<le> of_int (?k + 1)"
  proof -
    have "(of_int g :: rat) \<le> of_int (K + 2 ^ j)" using gK' by (simp only: of_int_le_iff)
    then have "(of_int g :: rat) \<le> of_int (?k + 1) * 2 ^ j" by (simp add: K_def algebra_simps)
    then show ?thesis using p0 by (simp add: v_def pos_divide_le_eq del: of_int_add)
  qed
  have "v \<le> 2 ^ 53"
  proof -
    have "?k + 1 \<le> 2 ^ 53" using kn n by simp
    then have "(of_int (?k + 1) :: rat) \<le> of_int (2 ^ 53)" by (simp only: of_int_le_iff)
    then show ?thesis using v_hi by simp
  qed
  then have no: "\<not> double_overflow \<le> v" by (rule below_overflow)
  have qn0: "?q \<noteq> 0" using q0 by (rule less_imp_neq[THEN not_sym])
  have sg: "sgn ?q = 1" using q0 by (rule sgn_pos)
  have "round_double ?q =
      (if double_overflow \<le> v then (if 0 < ?q then PosInf else NegInf) else Fin (sgn ?q * v))"
    unfolding round_double_def Let_def aq vv by (simp only: qn0 if_False)
  then have "round_double ?q = Fin v"
    by (simp only: no if_False sg mult_1)
  then show ?thesis using v_lo v_hi by blast
qed

section \<open>Finding, updating and deleting the first match\<close>



lemma delete_first_split:
  "\<forall>y \<in> set ys. \<not> P y \<Longrightarrow> P x \<Longrightarrow> delete_first P (ys @ x # zs) = ys @ zs"
  by (induction ys) auto

lemma update_first_none: "\<forall>y \<in> set xs. \<not> P y \<Longrightarrow> update_first P f xs = xs"
  by (induction xs) auto

section \<open>Owner-scoped queries\<close>



lemma set_sorted_documents [simp]: "set (sorted_documents c xs) = set xs"
  by (simp add: sorted_documents_def)

lemma mset_sorted_documents [simp]: "mset (sorted_documents c xs) = mset xs"
  by (simp add: sorted_documents_def)








section \<open>What the task-write schema guarantees\<close>









lemma taskSchema_title_required:
  "map_of kv ''title'' = None \<Longrightarrow> taskSchema_validation e (JObj kv) = Inl (AnyRequired ''title'')"
  by (simp add: taskSchema_validation_def joi_required_def)


lemma authenticateToken_params [simp]:
  "authenticateToken e c (req\<lparr>params_id := i\<rparr>) = authenticateToken e c req"
  by (simp add: authenticateToken_def)

section \<open>Invariants of the store\<close>

text \<open>
  The theorems on conflicts and on ownership assume that stored emails are in the form
  in which the schema writes them and that task ids are unique. Both hold of the empty
  store and are kept by every route that writes: the setter of \<open>email\<close> is idempotent,
  an insert with a duplicate id is refused, and updates do not touch the id.
\<close>

lemma to_lower_space: "is_space (to_lower ch) = is_space ch"
  by (auto simp: to_lower_def is_space_def Let_def)

lemma to_lower_idem: "to_lower (to_lower ch) = to_lower ch"
  by (auto simp: to_lower_def Let_def)

lemma toLowerCase_idem: "toLowerCase (toLowerCase xs) = toLowerCase xs"
  by (simp add: toLowerCase_def to_lower_idem)

lemma trim_toLowerCase: "trim (toLowerCase xs) = toLowerCase (trim xs)"
proof -
  have c: "is_space \<circ> to_lower = is_space" by (rule ext) (simp add: to_lower_space)
  have a: "dropWhile is_space (map to_lower ys) = map to_lower (dropWhile is_space ys)" for ys
    by (simp add: dropWhile_map c)
  show ?thesis
    by (simp add: trim_def toLowerCase_def a rev_map)
qed

lemma dropWhile_rev_tail:
  assumes "dropWhile P xs = xs"
  shows "dropWhile P (rev (dropWhile P (rev xs))) = rev (dropWhile P (rev xs))"
proof (cases "dropWhile P (rev xs)")
  case Nil
  show ?thesis unfolding Nil by simp
next
  case (Cons a as)
  have "xs \<noteq> []" using Cons by auto
  then obtain y ys where xs: "xs = y # ys" by (cases xs) auto
  then have ny: "\<not> P y" using assms by (auto split: if_splits) (metis dropWhile_eq_Cons_conv list.inject)
  obtain zs where "rev xs = zs @ dropWhile P (rev xs)"
    by (metis takeWhile_dropWhile_id)
  then have "xs = rev (dropWhile P (rev xs)) @ rev zs" by (metis rev_append rev_rev_ident)
  then have "hd (rev (dropWhile P (rev xs))) = y"
    using Cons xs by (metis hd_append2 list.sel(1) rev_is_Nil_conv list.distinct(1))
  then show ?thesis using ny Cons
    by (metis dropWhile.simps(2) hd_Cons_tl rev_is_Nil_conv list.distinct(1))
qed

lemma trim_idem: "trim (trim xs) = trim xs"
proof -
  let ?d = "dropWhile is_space xs"
  have 1: "dropWhile is_space ?d = ?d" by (rule dropWhile_idem)
  have 2: "dropWhile is_space (rev (dropWhile is_space (rev ?d))) = rev (dropWhile is_space (rev ?d))"
    using 1 by (rule dropWhile_rev_tail)
  show ?thesis by (simp add: trim_def 2 dropWhile_idem)
qed

lemma email_setter_idem: "email_setter (email_setter xs) = email_setter xs"
  by (simp add: email_setter_def trim_toLowerCase toLowerCase_idem trim_idem)


lemma map_update_first: "(\<And>x. g (f x) = g x) \<Longrightarrow> map g (update_first P f xs) = map g xs"
  by (induction xs) auto

lemma set_delete_first: "set (delete_first P xs) \<subseteq> set xs"
  by (induction xs) auto

lemma distinct_delete_first: "distinct (map g xs) \<Longrightarrow> distinct (map g (delete_first P xs))"
proof (induction xs)
  case Nil then show ?case by simp
next
  case (Cons a xs)
  show ?case using Cons set_delete_first[of P xs] by auto
qed

lemma protected_preserves:
  assumes "\<And>u. Q (snd (h u req s))" and "Q s"
  shows "Q (snd (protected e c h req s))"
  using assms by (simp add: protected_def split: sum.splits)

lemma task_ids_post:
  assumes "distinct (map task_id (tasks s))"
  shows "distinct (map task_id (tasks (snd (post_tasks e c req s))))"
  unfolding post_tasks_def
proof (rule protected_preserves)
  fix u
  show "distinct (map task_id (tasks (snd (post_tasks_handler e c u req s))))"
    using assms
    by (auto simp: post_tasks_handler_def task_insert_def list_ex_iff split: sum.splits if_splits)
qed (rule assms)

lemma task_ids_put:
  assumes "distinct (map task_id (tasks s))"
  shows "distinct (map task_id (tasks (snd (put_task e c req s))))"
  unfolding put_task_def
proof (rule protected_preserves)
  fix u
  have "map task_id (update_first P (update_document v t) xs) = map task_id xs" for P v t xs
    by (rule map_update_first) (simp add: update_document_def)
  then show "distinct (map task_id (tasks (snd (put_task_handler e c u req s))))"
    using assms
    by (auto simp: put_task_handler_def Task_findOneAndUpdate_def split: sum.splits option.splits if_splits)
qed (rule assms)

lemma task_ids_delete:
  assumes "distinct (map task_id (tasks s))"
  shows "distinct (map task_id (tasks (snd (delete_task e c req s))))"
  unfolding delete_task_def
proof (rule protected_preserves)
  fix u
  show "distinct (map task_id (tasks (snd (delete_task_handler u req s))))"
    using assms
    by (auto simp: delete_task_handler_def Task_findOneAndDelete_def distinct_delete_first
        split: sum.splits option.splits if_splits)
qed (rule assms)

lemma emails_register:
  assumes "list_all (\<lambda>m. m = email_setter m) (map email (users s))"
  shows "list_all (\<lambda>m. m = email_setter m) (map email (users (snd (post_auth_register e c req s))))"
  using assms
  by (auto simp: post_auth_register_def user_insert_def new_User_def Let_def email_setter_idem
      split: sum.splits option.splits if_splits)

lemma emails_login:
  assumes "list_all (\<lambda>m. m = email_setter m) (map email (users s))"
  shows "list_all (\<lambda>m. m = email_setter m) (map email (users (snd (post_auth_login e c req s))))"
proof -
  have "map email (update_first P (lastLogin_update g) xs) = map email xs" for P g and xs :: "user list"
    by (rule map_update_first) simp
  then show ?thesis using assms
    by (auto simp: post_auth_login_def user_save_def Let_def split: sum.splits option.splits if_splits)
qed

section \<open>The sample deployment, evaluated\<close>


lemma auth_alice: "authenticateToken sample_env sample_ctx ((bearer ''jwt-alice'')\<lparr>params_id := i, body := b\<rparr>) = Inr alice_claims"
  by (simp add: authenticateToken_def header_token_def bearer_def sample_request_def sample_env_def)


lemma sample_email_setter: "email_setter ''alice@example.com'' = ''alice@example.com''"
  by code_simp

lemma sample_register_ok:
  "registerSchema sample_env (register_body ''alice2'' ''alice@example.com'' ''secret1'') =
     Inr \<lparr>r_username = ''alice2'', r_email = ''alice@example.com'', r_password = ''secret1''\<rparr>"
  by (simp add: register_body_def registerSchema_def registerSchema_username_def registerSchema_email_def
        registerSchema_password_def
        joi_defs sample_env_def is_alnum_def email_match_def plain_def is_space_def upt_rec)

lemma find_Some_if: "x \<in> set xs \<Longrightarrow> P x \<Longrightarrow> \<exists>y. List.find P xs = Some y"
  by (cases "List.find P xs") (auto simp: find_None_iff)

section \<open>Ownership isolation\<close>



section \<open>Registration conflicts\<close>

lemma registerSchema_email_only_string:
  "registerSchema_email e j = Inr m \<Longrightarrow> j = JStr m"
  by (auto simp: registerSchema_email_def joi_string_def split: json.splits if_splits option.splits)

lemma register_conflict:
  assumes "registerSchema e (body req) = Inr v"
    and "x \<in> set (users s)"
    and "username x = r_username v \<or> email x = r_email v"
    and "email x = email_setter (email x)"
  shows "post_auth_register e c req s = (respond 400 (ErrorMsg ''User already exists''), s)"
proof -
  have "username_setter (r_username v) = r_username v"
    using registerSchema_username_alnum[OF assms(1)] by (simp add: username_setter_def trim_alnum)
  then have "email x = email_setter (r_email v) \<or> username x = username_setter (r_username v)"
    using assms(3,4) by auto
  then obtain y where "List.find (\<lambda>u. email u = email_setter (r_email v) \<or>
                               username u = username_setter (r_username v)) (users s) = Some y"
    using find_Some_if[OF assms(2)] by fastforce
  then show ?thesis using assms(1) by (simp add: post_auth_register_def)
qed

text \<open>
  C4. A registration request whose username or email equals that of a stored user
  (stored emails being in the lower-case, trimmed form in which the schema writes them)
  is answered with status 400 and leaves the store exactly as it was: no record is
  added and none is modified. When the payload passes validation the error is
  \<open>User already exists\<close>; otherwise it is the validation message.
\<close>

theorem register_conflict_unchanged:
  assumes "body req = JObj kv"
    and "map_of kv ''username'' = Some (JStr n)" and "map_of kv ''email'' = Some (JStr m)"
    and "x \<in> set (users s)" and "username x = n \<or> email x = m"
    and "email x = email_setter (email x)"
  shows "res_status (fst (post_auth_register e c req s)) = 400 \<and>
         snd (post_auth_register e c req s) = s \<and>
         ((\<exists>v. registerSchema e (body req) = Inr v) \<longrightarrow>
            post_auth_register e c req s = (respond 400 (ErrorMsg ''User already exists''), s))"
proof (cases "registerSchema e (body req)")
  case (Inl err)
  then show ?thesis by (simp add: register_invalid respond_def)
next
  case (Inr v)
  have v: "registerSchema e (JObj kv) = Inr v" using Inr assms(1) by simp
  have "registerSchema_username (JStr n) = Inr (r_username v)"
    using registerSchema_fields(1)[OF v] assms(2) by (simp add: joi_required_def)
  then have n: "r_username v = n" using registerSchema_username_only_string by fastforce
  have "registerSchema_email e (JStr m) = Inr (r_email v)"
    using registerSchema_fields(2)[OF v] assms(3) by (simp add: joi_required_def)
  then have m: "r_email v = m" using registerSchema_email_only_string by fastforce
  have "post_auth_register e c req s = (respond 400 (ErrorMsg ''User already exists''), s)"
    using register_conflict[OF Inr assms(4) _ assms(6)] assms(5) n m by simp
  then show ?thesis by (simp add: respond_def)
qed

theorem register_conflict_unchanged_witness:
  "post_auth_register sample_env sample_ctx
     (sample_request\<lparr>body := register_body ''alice2'' ''alice@example.com'' ''secret1''\<rparr>) sample_store
   = (respond 400 (ErrorMsg ''User already exists''), sample_store)"
proof -
  have 1: "body (sample_request\<lparr>body := register_body ''alice2'' ''alice@example.com'' ''secret1''\<rparr>)
     = JObj [(''username'', JStr ''alice2''), (''email'', JStr ''alice@example.com''),
             (''password'', JStr ''secret1'')]"
    by (simp add: register_body_def)
  have 2: "map_of [(''username'', JStr ''alice2''), (''email'', JStr ''alice@example.com''),
             (''password'', JStr ''secret1'')] ''username'' = Some (JStr ''alice2'')" by simp
  have 3: "map_of [(''username'', JStr ''alice2''), (''email'', JStr ''alice@example.com''),
             (''password'', JStr ''secret1'')] ''email'' = Some (JStr ''alice@example.com'')" by simp
  have 4: "sample_user 1 ''alice'' True \<in> set (users sample_store)" by (simp add: sample_store_def)
  have 5: "username (sample_user 1 ''alice'' True) = ''alice2'' \<or>
           email (sample_user 1 ''alice'' True) = ''alice@example.com''"
    by (simp add: sample_user_def)
  have 6: "email (sample_user 1 ''alice'' True) = email_setter (email (sample_user 1 ''alice'' True))"
    using sample_email_setter by (simp add: sample_user_def)
  have 7: "\<exists>v. registerSchema sample_env
      (body (sample_request\<lparr>body := register_body ''alice2'' ''alice@example.com'' ''secret1''\<rparr>)) = Inr v"
    using sample_register_ok by simp
  show ?thesis
    using register_conflict_unchanged[OF 1 2 3 4 5 6, of sample_env sample_ctx] 7 by blast
qed

section \<open>Usernames with an underscore\<close>

text \<open>
  C8. The claim that a 3 to 30 character username that contains an underscore beside
  alphanumeric characters passes validation and is stored, run on the code: the
  username \<open>john_doe\<close> satisfies the pattern and the length bounds of \<^verbatim>\<open>userSchema\<close>,
  yet registration answers 400 with the alphanumeric rule of \<^verbatim>\<open>registerSchema\<close> and
  stores nothing.
\<close>

theorem register_underscore_rejected:
  "post_auth_register sample_env sample_ctx
     (sample_request\<lparr>body := register_body ''john_doe'' ''john@example.com'' ''secret1''\<rparr>)
     sample_store
   = (respond 400 (ValidationMsg (StringAlphanum ''username'')), sample_store) \<and>
   username_match ''john_doe'' \<and> 3 \<le> length ''john_doe'' \<and> length ''john_doe'' \<le> 30"
  by (simp add: post_auth_register_def registerSchema_def registerSchema_username_def
      register_body_def joi_defs is_alnum_def username_match_def)

section \<open>Login failures\<close>

lemma login_rejected:
  assumes "loginSchema e (body req) = Inr v"
    and "\<forall>u \<in> set (users s). email u = email_setter (l_email v) \<and> isActive u \<longrightarrow>
            \<not> bcrypt_compare e (l_password v) (password u)"
  shows "post_auth_login e c req s = (respond 401 (ErrorMsg ''Invalid credentials''), s)"
proof (cases "List.find (\<lambda>u. email u = email_setter (l_email v) \<and> isActive u) (users s)")
  case None
  then show ?thesis using assms(1) by (simp add: post_auth_login_def invalid_credentials_def)
next
  case (Some u)
  then have "u \<in> set (users s)" "email u = email_setter (l_email v) \<and> isActive u"
    by (auto simp: find_Some_iff)
  then have "\<not> bcrypt_compare e (l_password v) (password u)" using assms(2) by blast
  then show ?thesis using assms(1) Some by (simp add: post_auth_login_def invalid_credentials_def)
qed

lemma login_token_active:
  assumes "res_json (fst (post_auth_login e c req s)) = AuthBody msg tok pu"
  shows "\<exists>u \<in> set (users s). isActive u \<and> user_id u = pu_id pu \<and> email u = pu_email pu"
  using assms
  by (auto simp: post_auth_login_def respond_def invalid_credentials_def Let_def find_Some_iff
      split: sum.splits option.splits if_splits)

lemma sample_login_ok:
  "joi_email e m \<Longrightarrow> m \<noteq> [] \<Longrightarrow> p \<noteq> [] \<Longrightarrow>
   loginSchema e (login_body m p) = Inr \<lparr>l_email = m, l_password = p\<rparr>"
  by (simp add: login_body_def loginSchema_def joi_defs)

lemma sample_emails:
  "joi_email sample_env ''nobody@example.com''"
  "joi_email sample_env ''carol@example.com''"
  "joi_email sample_env ''alice@example.com''"
  by (simp_all add: sample_env_def email_match_def plain_def is_space_def upt_rec)

lemma sample_setters:
  "email_setter ''nobody@example.com'' = ''nobody@example.com''"
  "email_setter ''carol@example.com'' = ''carol@example.com''"
  by code_simp+

text \<open>
  C2. A login request that passes validation is answered with the same status 401 and
  the same body \<open>Invalid credentials\<close>, the store being left as it was, when no user has
  the email, when every user with the email is deactivated, and when the password does
  not match the hash of the active user with the email. Whatever the request, a login
  response that carries a token was issued for an active user of the store, so a
  deactivated user never obtains one.
\<close>

theorem login_failure_uniform:
  assumes "loginSchema e (body req) = Inr v"
  shows "((\<forall>u \<in> set (users s). email u \<noteq> email_setter (l_email v)) \<longrightarrow>
            post_auth_login e c req s = (respond 401 (ErrorMsg ''Invalid credentials''), s)) \<and>
         ((\<forall>u \<in> set (users s). email u = email_setter (l_email v) \<longrightarrow> \<not> isActive u) \<longrightarrow>
            post_auth_login e c req s = (respond 401 (ErrorMsg ''Invalid credentials''), s)) \<and>
         ((\<forall>u \<in> set (users s). email u = email_setter (l_email v) \<and> isActive u \<longrightarrow>
               \<not> bcrypt_compare e (l_password v) (password u)) \<longrightarrow>
            post_auth_login e c req s = (respond 401 (ErrorMsg ''Invalid credentials''), s)) \<and>
         (\<forall>msg tok pu. res_json (fst (post_auth_login e c req s)) = AuthBody msg tok pu \<longrightarrow>
            (\<exists>u \<in> set (users s). isActive u \<and> user_id u = pu_id pu \<and> email u = pu_email pu))"
proof -
  have a: "post_auth_login e c req s = (respond 401 (ErrorMsg ''Invalid credentials''), s)"
    if "\<forall>u \<in> set (users s). email u \<noteq> email_setter (l_email v)"
    using login_rejected[OF assms] that by blast
  have b: "post_auth_login e c req s = (respond 401 (ErrorMsg ''Invalid credentials''), s)"
    if "\<forall>u \<in> set (users s). email u = email_setter (l_email v) \<longrightarrow> \<not> isActive u"
    using login_rejected[OF assms] that by blast
  have d: "post_auth_login e c req s = (respond 401 (ErrorMsg ''Invalid credentials''), s)"
    if "\<forall>u \<in> set (users s). email u = email_setter (l_email v) \<and> isActive u \<longrightarrow>
               \<not> bcrypt_compare e (l_password v) (password u)"
    using login_rejected[OF assms that] .
  show ?thesis using a b d login_token_active by blast
qed

theorem login_failure_uniform_witness:
  "post_auth_login sample_env sample_ctx
     (sample_request\<lparr>body := login_body ''nobody@example.com'' ''secret1''\<rparr>) sample_store
     = (respond 401 (ErrorMsg ''Invalid credentials''), sample_store) \<and>
   post_auth_login sample_env sample_ctx
     (sample_request\<lparr>body := login_body ''carol@example.com'' ''secret1''\<rparr>) sample_store
     = (respond 401 (ErrorMsg ''Invalid credentials''), sample_store) \<and>
   post_auth_login sample_env sample_ctx
     (sample_request\<lparr>body := login_body ''alice@example.com'' ''wrong''\<rparr>) sample_store
     = (respond 401 (ErrorMsg ''Invalid credentials''), sample_store)"
proof -
  have v1: "loginSchema sample_env (body (sample_request\<lparr>body := login_body ''nobody@example.com'' ''secret1''\<rparr>))
      = Inr \<lparr>l_email = ''nobody@example.com'', l_password = ''secret1''\<rparr>"
    using sample_login_ok[OF sample_emails(1), of "''secret1''"] by simp
  have v2: "loginSchema sample_env (body (sample_request\<lparr>body := login_body ''carol@example.com'' ''secret1''\<rparr>))
      = Inr \<lparr>l_email = ''carol@example.com'', l_password = ''secret1''\<rparr>"
    using sample_login_ok[OF sample_emails(2), of "''secret1''"] by simp
  have v3: "loginSchema sample_env (body (sample_request\<lparr>body := login_body ''alice@example.com'' ''wrong''\<rparr>))
      = Inr \<lparr>l_email = ''alice@example.com'', l_password = ''wrong''\<rparr>"
    using sample_login_ok[OF sample_emails(3), of "''wrong''"] by simp
  have h1: "\<forall>u \<in> set (users sample_store). email u \<noteq> email_setter (l_email \<lparr>l_email = ''nobody@example.com'', l_password = ''secret1''\<rparr>)"
    by (simp add: sample_setters sample_store_def sample_user_def)
  have h2: "\<forall>u \<in> set (users sample_store). email u = email_setter (l_email \<lparr>l_email = ''carol@example.com'', l_password = ''secret1''\<rparr>) \<longrightarrow> \<not> isActive u"
    by (simp add: sample_setters sample_store_def sample_user_def)
  have h3: "\<forall>u \<in> set (users sample_store). email u = email_setter (l_email \<lparr>l_email = ''alice@example.com'', l_password = ''wrong''\<rparr>) \<and> isActive u \<longrightarrow>
               \<not> bcrypt_compare sample_env (l_password \<lparr>l_email = ''alice@example.com'', l_password = ''wrong''\<rparr>) (password u)"
    by (simp add: sample_email_setter sample_store_def sample_user_def sample_env_def)
  show ?thesis
    using login_failure_uniform[OF v1, of sample_store sample_ctx] h1
      login_failure_uniform[OF v2, of sample_store sample_ctx] h2
      login_failure_uniform[OF v3, of sample_store sample_ctx] h3
    by blast
qed

section \<open>Requests without a valid token\<close>

text \<open>
  C3. On every protected route (profile, list, create, update and delete task): when
  the Authorization header carries no token (the header is absent, or its second
  space-separated piece is absent or empty) the response is 401; when the token does
  not verify (tampered with or expired) the response is 403. In both cases the response
  is the same for every handler behind the middleware and for every store, and the
  store is returned as it was: the handler is not entered.
\<close>

theorem token_gate:
  "(header_token (headers_authorization req) = None \<or>
    header_token (headers_authorization req) = Some [] \<longrightarrow>
      (\<forall>h. protected e c h req s = (respond 401 (ErrorMsg ''Access token required''), s)) \<and>
      get_profile e c req s = (respond 401 (ErrorMsg ''Access token required''), s) \<and>
      get_tasks e c req s = (respond 401 (ErrorMsg ''Access token required''), s) \<and>
      post_tasks e c req s = (respond 401 (ErrorMsg ''Access token required''), s) \<and>
      put_task e c req s = (respond 401 (ErrorMsg ''Access token required''), s) \<and>
      delete_task e c req s = (respond 401 (ErrorMsg ''Access token required''), s)) \<and>
   (header_token (headers_authorization req) = Some t \<and> t \<noteq> [] \<and> jwt_verify e t (now c) = None \<longrightarrow>
      (\<forall>h. protected e c h req s = (respond 403 (ErrorMsg ''Invalid token''), s)) \<and>
      get_profile e c req s = (respond 403 (ErrorMsg ''Invalid token''), s) \<and>
      get_tasks e c req s = (respond 403 (ErrorMsg ''Invalid token''), s) \<and>
      post_tasks e c req s = (respond 403 (ErrorMsg ''Invalid token''), s) \<and>
      put_task e c req s = (respond 403 (ErrorMsg ''Invalid token''), s) \<and>
      delete_task e c req s = (respond 403 (ErrorMsg ''Invalid token''), s))"
proof -
  have a: "protected e c h req s = (respond 401 (ErrorMsg ''Access token required''), s)"
    if "header_token (headers_authorization req) = None \<or>
        header_token (headers_authorization req) = Some []" for h
    using that by (rule protected_no_token)
  have b: "protected e c h req s = (respond 403 (ErrorMsg ''Invalid token''), s)"
    if "header_token (headers_authorization req) = Some t \<and> t \<noteq> [] \<and> jwt_verify e t (now c) = None" for h
    using that protected_bad_token by blast
  show ?thesis
    unfolding get_profile_def get_tasks_def post_tasks_def put_task_def delete_task_def
    using a b by blast
qed

theorem token_gate_witness:
  "delete_task sample_env sample_ctx (sample_request\<lparr>params_id := Some 10\<rparr>) sample_store
     = (respond 401 (ErrorMsg ''Access token required''), sample_store) \<and>
   delete_task sample_env sample_ctx ((bearer ''jwt-alicf'')\<lparr>params_id := Some 10\<rparr>) sample_store
     = (respond 403 (ErrorMsg ''Invalid token''), sample_store) \<and>
   tasks sample_store = [sample_task 10 1 1000, sample_task 11 2 1500]"
proof -
  have 1: "header_token (headers_authorization (sample_request\<lparr>params_id := Some 10\<rparr>)) = None"
    by (simp add: sample_request_def header_token_def)
  have 2: "header_token (headers_authorization ((bearer ''jwt-alicf'')\<lparr>params_id := Some 10\<rparr>)) = Some ''jwt-alicf''
     \<and> ''jwt-alicf'' \<noteq> [] \<and> jwt_verify sample_env ''jwt-alicf'' (now sample_ctx) = None"
    by (simp add: bearer_def sample_request_def header_token_def sample_env_def)
  show ?thesis
    using token_gate[where req = "sample_request\<lparr>params_id := Some 10\<rparr>" and e = sample_env
          and c = sample_ctx and s = sample_store] 1
      token_gate[where req = "(bearer ''jwt-alicf'')\<lparr>params_id := Some 10\<rparr>" and t = "''jwt-alicf''"
          and e = sample_env and c = sample_ctx and s = sample_store] 2
    by (simp add: sample_store_def)
qed

section \<open>What an update changes\<close>







section \<open>Updates that omit the title\<close>

text \<open>
  C5. The claim that Update Task accepts a body that is a subset of the task-write
  fields, run on the code: the owner of task 10 sends only \<open>status = completed\<close>, a
  value the status rule accepts; the handler answers 400 because \<open>title\<close> is required,
  and the task keeps its status.
\<close>

theorem partial_update_rejected:
  "put_task sample_env sample_ctx
     ((bearer ''jwt-alice'')\<lparr>params_id := Some 10, body := JObj [(''status'', JStr ''completed'')]\<rparr>)
     sample_store
   = (respond 400 (ValidationMsg (AnyRequired ''title'')), sample_store) \<and>
   sample_task 10 1 1000 \<in> set (tasks sample_store) \<and>
   userId (sample_task 10 1 1000) = c_userId alice_claims \<and>
   joi_valid ''status'' status_values (JStr ''completed'') = Inr ''completed''"
  by (simp add: put_task_def protected_ok[OF auth_alice] put_task_handler_def
      taskSchema_title_required sample_store_def sample_task_def alice_claims_def
      joi_valid_def status_values_def)

section \<open>Page and limit\<close>

lemma js_sub_int:
  "\<bar>a - b\<bar> \<le> 2 ^ 53 \<Longrightarrow> js_sub (Fin (of_int a)) (Fin (of_int b)) = Fin (of_int (a - b))"
  using round_double_int[of "a - b"] by simp

lemma js_mul_int:
  "\<bar>a * b\<bar> \<le> 2 ^ 53 \<Longrightarrow> js_mul (Fin (of_int a)) (Fin (of_int b)) = Fin (of_int (a * b))"
  using round_double_int[of "a * b"] by simp

lemma is_integer_of_int [simp]: "is_integer (of_int n)"
  by (simp add: is_integer_def)

lemma cursor_skip_int:
  "cursor_skip (Fin (of_int n)) xs = (if n < 0 then Inl BadValue else Inr (drop (nat n) xs))"
  by (simp add: cursor_skip_def)

lemma cursor_limit_int:
  "cursor_limit (Fin (of_int n)) xs = (if n = 0 then Inr xs else Inr (take (nat \<bar>n\<bar>) xs))"
  by (simp add: cursor_limit_def)

lemma js_ceil_div_exact:
  fixes l :: int
  assumes "n < 2 ^ 53" and "1 \<le> l" and "l \<le> 2 ^ 53"
  shows "js_ceil (js_div (Fin (of_nat n)) (Fin (of_int l))) =
           Fin (of_int \<lceil>(of_nat n :: rat) / of_int l\<rceil>)"
proof -
  let ?n = "int n"
  have l0: "(of_int l :: rat) \<noteq> 0" using assms(2) by simp
  have "int n < int (2 ^ 53)" using assms(1) by (simp only: of_nat_less_iff)
  then have n53: "?n < 2 ^ 53" by simp
  have dv: "js_div (Fin (of_nat n)) (Fin (of_int l)) = round_double (of_int ?n / of_int l)"
    using l0 by simp
  have ce: "\<lceil>(of_nat n :: rat) / of_int l\<rceil> = - ((- ?n) div l)"
    using ceiling_divide_eq_div[of ?n l, where 'a=rat] by simp
  show ?thesis
  proof (cases "l dvd ?n")
    case True
    then obtain k where k: "?n = l * k" by (auto simp: dvd_def)
    have k0: "0 \<le> k" using k assms(2) by (smt (verit) of_nat_0_le_iff zero_le_mult_iff)
    have "k * 1 \<le> k * l" using k0 assms(2) by (intro mult_left_mono) auto
    then have kn: "k \<le> ?n" using k by (simp add: mult.commute)
    have q: "(of_int ?n :: rat) / of_int l = of_int k" using k l0 by simp
    have "\<bar>k\<bar> \<le> 2 ^ 53" using k0 kn n53 by simp
    then have "round_double (of_int k) = Fin (of_int k)" by (rule round_double_int)
    then show ?thesis unfolding dv q using q by simp
  next
    case False
    have n0: "0 < ?n" using False by (cases "n = 0") auto
    obtain v where v: "round_double (of_int ?n / of_int l) = Fin v"
      "of_int (?n div l) < v" "v \<le> of_int (?n div l + 1)"
      using round_double_quotient[OF n0 n53 assms(2,3) False] by blast
    have "\<lceil>v\<rceil> = ?n div l + 1" using v(2,3) by (intro ceiling_unique) simp_all
    moreover have "- ((- ?n) div l) = ?n div l + 1"
      using False assms(2) by (simp add: zdiv_zminus1_eq_if dvd_eq_mod_eq_0)
    ultimately show ?thesis unfolding dv v(1) using ce by simp
  qed
qed

lemma get_tasks_handler_page:
  fixes p l :: int
  assumes "query_number e 1 (query_page req) = Fin (of_int p)"
    and "query_number e 10 (query_limit req) = Fin (of_int l)"
    and "1 \<le> p" and "1 \<le> l" and "l \<le> 2 ^ 53" and "(p - 1) * l \<le> 2 ^ 53"
  shows "skip_arg e req = Fin (of_int ((p - 1) * l))"
    and "limit_arg e req = Fin (of_int l)"
    and "get_tasks_handler e c u req s =
           (respond 200
              (TaskPage
                 (take (nat l) (drop (nat ((p - 1) * l))
                    (sorted_documents c (filter (tasks_filter u req) (tasks s)))))
                 (json_number (js_ceil (js_div
                    (Fin (of_nat (length (filter (tasks_filter u req) (tasks s))))) (Fin (of_int l)))))
                 (case query_page req of None \<Rightarrow> JNum (Fin 1) | Some x \<Rightarrow> JStr x)
                 (length (filter (tasks_filter u req) (tasks s)))),
            s)"
proof -
  have nn: "0 \<le> (p - 1) * l" using assms(3,4) by simp
  have p1: "p - 1 \<le> (p - 1) * l" using assms(3,4) by (simp add: mult_le_cancel_left1)
  have "js_sub (Fin (of_int p)) (Fin (of_int 1)) = Fin (of_int (p - 1))"
    using assms(3,6) p1 by (intro js_sub_int) simp
  then have s1: "js_sub (Fin (of_int p)) (Fin 1) = Fin (of_int (p - 1))" by simp
  have s2: "js_mul (Fin (of_int (p - 1))) (Fin (of_int l)) = Fin (of_int ((p - 1) * l))"
    using assms(6) nn by (intro js_mul_int) simp
  show sk: "skip_arg e req = Fin (of_int ((p - 1) * l))"
    by (simp only: skip_arg_def assms(1,2) s1 s2)
  have "js_mul (Fin (of_int l)) (Fin (of_int 1)) = Fin (of_int (l * 1))"
    using assms(4,5) by (intro js_mul_int) simp
  then have s3: "js_mul (Fin (of_int l)) (Fin 1) = Fin (of_int l)" by simp
  show li: "limit_arg e req = Fin (of_int l)"
    by (simp only: limit_arg_def assms(2) s3)
  have l0: "l \<noteq> 0" "\<bar>l\<bar> = l" using assms(4) by auto
  show "get_tasks_handler e c u req s =
           (respond 200
              (TaskPage
                 (take (nat l) (drop (nat ((p - 1) * l))
                    (sorted_documents c (filter (tasks_filter u req) (tasks s)))))
                 (json_number (js_ceil (js_div
                    (Fin (of_nat (length (filter (tasks_filter u req) (tasks s))))) (Fin (of_int l)))))
                 (case query_page req of None \<Rightarrow> JNum (Fin 1) | Some x \<Rightarrow> JStr x)
                 (length (filter (tasks_filter u req) (tasks s)))),
            s)"
    unfolding get_tasks_handler_def Task_find_def sk li cursor_skip_int cursor_limit_int
      Task_countDocuments_def assms(2) Let_def
    using nn l0 by simp
qed


lemma sample_numbers:
  "sample_number ''0'' = Fin 0" "sample_number ''-1'' = Fin (- 1)" "sample_number ''abc'' = NaN"
  "sample_number ''1'' = Fin 1" "sample_number ''2'' = Fin 2" "sample_number ''3'' = Fin 3"
  "sample_number ''5'' = Fin 5"
  by (simp_all add: sample_number_def)





section \<open>Twelve tasks, five per page\<close>





lemma sample_store_tie_tasks:
  "tasks sample_store_tie =
     [sample_task 20 1 0, sample_task 21 1 100, sample_task 22 1 200, sample_task 23 1 300,
      sample_task 24 1 400, sample_task 25 1 500, sample_task 26 1 600, sample_task 27 1 600,
      sample_task 28 1 800, sample_task 29 1 900, sample_task 30 1 1000, sample_task 31 1 1100]"
  by (simp add: sample_store_tie_def upt_rec)

lemma sample_tie_descending:
  "sorted_documents (sample_ctx\<lparr>scan_rank := \<lambda>i. 100 - i\<rparr>) (tasks sample_store_tie) =
     [sample_task 31 1 1100, sample_task 30 1 1000, sample_task 29 1 900, sample_task 28 1 800,
      sample_task 27 1 600, sample_task 26 1 600, sample_task 25 1 500, sample_task 24 1 400,
      sample_task 23 1 300, sample_task 22 1 200, sample_task 21 1 100, sample_task 20 1 0]"
  by (simp add: sample_store_tie_tasks sorted_documents_def sample_task_def)

lemma sample_tie_ascending:
  "sorted_documents (sample_ctx\<lparr>scan_rank := \<lambda>i. i\<rparr>) (tasks sample_store_tie) =
     [sample_task 31 1 1100, sample_task 30 1 1000, sample_task 29 1 900, sample_task 28 1 800,
      sample_task 26 1 600, sample_task 27 1 600, sample_task 25 1 500, sample_task 24 1 400,
      sample_task 23 1 300, sample_task 22 1 200, sample_task 21 1 100, sample_task 20 1 0]"
  by (simp add: sample_store_tie_tasks sorted_documents_def sample_task_def)

lemma sample_tie_filter:
  "filter (tasks_filter alice_claims (sample_request\<lparr>query_limit := Some ''5'', query_page := q\<rparr>))
     (tasks sample_store_tie) = tasks sample_store_tie"
  by (simp add: sample_store_tie_tasks tasks_filter_def truthy_def sample_request_def
      sample_task_def alice_claims_def)

lemma sample_total_pages: "json_number (js_ceil (js_div (Fin 12) (Fin 5))) = JNum (Fin 3)"
proof -
  have "js_ceil (js_div (Fin (of_nat 12)) (Fin (of_int 5))) =
          Fin (of_int \<lceil>(of_nat 12 :: rat) / of_int 5\<rceil>)"
    by (rule js_ceil_div_exact) simp_all
  moreover have "\<lceil>(12 :: rat) / 5\<rceil> = 3" by (simp add: ceiling_eq_iff)
  ultimately show ?thesis by simp
qed

lemma sample_total_pages_round: "json_number (js_ceil (round_double (12 / 5))) = JNum (Fin 3)"
  using sample_total_pages by simp


text \<open>
  C7, as stated, fails: the handler sorts on \<open>createdAt\<close> alone, and the store is free
  in the order of documents with equal \<open>createdAt\<close>. A caller owns 12 tasks, of which
  tasks 26 and 27 were created at the same time and stand at the boundary of the first
  two pages. When the store scans in one order for page 1 and in another for page 2,
  task 27 is returned on both pages and task 26 on none of the three.
\<close>

theorem pagination_ties_counterexample:
  "get_tasks_handler sample_env (sample_ctx\<lparr>scan_rank := \<lambda>i. 100 - i\<rparr>) alice_claims
      (sample_request\<lparr>query_limit := Some ''5'', query_page := Some ''1''\<rparr>) sample_store_tie =
     (respond 200
        (TaskPage [sample_task 31 1 1100, sample_task 30 1 1000, sample_task 29 1 900,
                   sample_task 28 1 800, sample_task 27 1 600]
           (JNum (Fin 3)) (JStr ''1'') 12),
      sample_store_tie) \<and>
   get_tasks_handler sample_env (sample_ctx\<lparr>scan_rank := \<lambda>i. i\<rparr>) alice_claims
      (sample_request\<lparr>query_limit := Some ''5'', query_page := Some ''2''\<rparr>) sample_store_tie =
     (respond 200
        (TaskPage [sample_task 27 1 600, sample_task 25 1 500, sample_task 24 1 400,
                   sample_task 23 1 300, sample_task 22 1 200]
           (JNum (Fin 3)) (JStr ''2'') 12),
      sample_store_tie) \<and>
   get_tasks_handler sample_env (sample_ctx\<lparr>scan_rank := \<lambda>i. i\<rparr>) alice_claims
      (sample_request\<lparr>query_limit := Some ''5'', query_page := Some ''3''\<rparr>) sample_store_tie =
     (respond 200
        (TaskPage [sample_task 21 1 100, sample_task 20 1 0] (JNum (Fin 3)) (JStr ''3'') 12),
      sample_store_tie) \<and>
   length (filter (\<lambda>t. userId t = c_userId alice_claims) (tasks sample_store_tie)) = 12"
proof -
  have n: "to_number sample_env = sample_number" by (simp add: sample_env_def)
  have lim: "query_number sample_env 10
      (query_limit (sample_request\<lparr>query_limit := Some ''5'', query_page := q\<rparr>)) = Fin (of_int 5)" for q
    by (simp add: query_number_def n sample_numbers)
  have pg: "query_number sample_env 1
      (query_page (sample_request\<lparr>query_limit := Some ''5'', query_page := Some ''1''\<rparr>)) = Fin (of_int 1)"
    "query_number sample_env 1
      (query_page (sample_request\<lparr>query_limit := Some ''5'', query_page := Some ''2''\<rparr>)) = Fin (of_int 2)"
    "query_number sample_env 1
      (query_page (sample_request\<lparr>query_limit := Some ''5'', query_page := Some ''3''\<rparr>)) = Fin (of_int 3)"
    by (simp_all add: query_number_def n sample_numbers)
  have len: "length (tasks sample_store_tie) = 12" by (simp add: sample_store_tie_tasks)
  have a: "get_tasks_handler sample_env (sample_ctx\<lparr>scan_rank := \<lambda>i. 100 - i\<rparr>) alice_claims
      (sample_request\<lparr>query_limit := Some ''5'', query_page := Some ''1''\<rparr>) sample_store_tie =
     (respond 200
        (TaskPage [sample_task 31 1 1100, sample_task 30 1 1000, sample_task 29 1 900,
                   sample_task 28 1 800, sample_task 27 1 600]
           (JNum (Fin 3)) (JStr ''1'') 12),
      sample_store_tie)"
    unfolding get_tasks_handler_page(3)[OF pg(1) lim, simplified] sample_tie_filter
      sample_tie_descending len
    by (simp add: sample_total_pages_round)
  have b: "get_tasks_handler sample_env (sample_ctx\<lparr>scan_rank := \<lambda>i. i\<rparr>) alice_claims
      (sample_request\<lparr>query_limit := Some ''5'', query_page := Some ''2''\<rparr>) sample_store_tie =
     (respond 200
        (TaskPage [sample_task 27 1 600, sample_task 25 1 500, sample_task 24 1 400,
                   sample_task 23 1 300, sample_task 22 1 200]
           (JNum (Fin 3)) (JStr ''2'') 12),
      sample_store_tie)"
    unfolding get_tasks_handler_page(3)[OF pg(2) lim, simplified] sample_tie_filter
      sample_tie_ascending len
    by (simp add: sample_total_pages_round)
  have d: "get_tasks_handler sample_env (sample_ctx\<lparr>scan_rank := \<lambda>i. i\<rparr>) alice_claims
      (sample_request\<lparr>query_limit := Some ''5'', query_page := Some ''3''\<rparr>) sample_store_tie =
     (respond 200
        (TaskPage [sample_task 21 1 100, sample_task 20 1 0] (JNum (Fin 3)) (JStr ''3'') 12),
      sample_store_tie)"
    unfolding get_tasks_handler_page(3)[OF pg(3) lim, simplified] sample_tie_filter
      sample_tie_ascending len
    by (simp add: sample_total_pages_round)
  have o: "length (filter (\<lambda>t. userId t = c_userId alice_claims) (tasks sample_store_tie)) = 12"
    by (simp add: sample_store_tie_tasks sample_task_def alice_claims_def)
  show ?thesis using a b d o by blast
qed



end
